theory Spec2Isabelle
  imports Complex_Main
begin

section \<open>Conventions of the embedding\<close>

text \<open>
  The Python sources compute with \<^verbatim>\<open>float\<close> values. They are embedded as HOL reals: every
  arithmetic operation is the exact one, there is no rounding, no infinity and no NaN.
  Exceptions are values of \<open>py_error\<close>; a function that can raise returns
  \<open>py_error + 'a\<close> with \<open>Inl\<close> carrying the exception.
\<close>

datatype py_error =
    AttributeError
  | UnitConversionError
  | KeyError
  | ValueError
  | TypeError
  | AssertionError
  | IndexError
  | RuntimeError
  | SameWavelengthsError

subsection \<open>Quantities with units (the part of \<^verbatim>\<open>unyt\<close> the code relies on)\<close>

datatype length_unit =
  Angstrom | Nanometer | Micrometer | Millimeter | Centimeter | Meter | Kilometer

datatype unyt_unit = Length length_unit | Second | Kelvin | Dimensionless

fun metres_per :: "length_unit \<Rightarrow> real" where
  "metres_per Angstrom = 1 / 10 ^ 10"
| "metres_per Nanometer = 1 / 10 ^ 9"
| "metres_per Micrometer = 1 / 10 ^ 6"
| "metres_per Millimeter = 1 / 10 ^ 3"
| "metres_per Centimeter = 1 / 10 ^ 2"
| "metres_per Meter = 1"
| "metres_per Kilometer = 10 ^ 3"

text \<open>\<^verbatim>\<open>q.to(unit)\<close> between two units of length.\<close>

definition convert_length :: "length_unit \<Rightarrow> length_unit \<Rightarrow> real \<Rightarrow> real" where
  "convert_length src dst v = v * metres_per src / metres_per dst"

subsection \<open>Python values passed to the constructors\<close>

text \<open>
  A wavelength argument is either a bare number (no \<^verbatim>\<open>.to\<close> attribute) or a
  \<^verbatim>\<open>unyt_quantity\<close>: a value and its unit.
\<close>

datatype wavelength_arg = Unitless real | Quantity real unyt_unit

text \<open>The \<^verbatim>\<open>element\<close> and \<^verbatim>\<open>ionizationState\<close> arguments: \<^verbatim>\<open>int or str\<close>.\<close>

datatype py_arg = PyInt int | PyStr string

subsection \<open>\<^verbatim>\<open>int(str)\<close> and \<^verbatim>\<open>str.capitalize()\<close>\<close>

text \<open>
  A string is a list of characters with code points below 256. From both ends of its argument
  \<^verbatim>\<open>int\<close> strips the space and the characters \<^verbatim>\<open>\t \n \v \f \r\<close> (code points 9 to 13) and,
  beyond ASCII, the white space \<^verbatim>\<open>U+0085\<close> and \<^verbatim>\<open>U+00A0\<close>, which it reads as a space. The
  separators \<^verbatim>\<open>U+001C\<close> to \<^verbatim>\<open>U+001F\<close> are not stripped.
\<close>

definition is_py_space :: "char \<Rightarrow> bool" where
  "is_py_space c =
     (let k = (of_char c :: nat) in k = 32 \<or> (9 \<le> k \<and> k \<le> 13) \<or> k = 133 \<or> k = 160)"

definition py_strip :: "string \<Rightarrow> string" where
  "py_strip s = rev (dropWhile is_py_space (rev (dropWhile is_py_space s)))"

definition digit_of :: "char \<Rightarrow> nat option" where
  "digit_of c =
     (let k = (of_char c :: nat) in if 48 \<le> k \<and> k \<le> 57 then Some (k - 48) else None)"

text \<open>Digits after the first one; a single underscore may separate two digits.\<close>

fun py_digits :: "nat \<Rightarrow> string \<Rightarrow> nat option" where
  "py_digits acc [] = Some acc"
| "py_digits acc (c # cs) =
     (if c = CHR ''_'' then
        (case cs of
           [] \<Rightarrow> None
         | d # ds \<Rightarrow>
             (case digit_of d of None \<Rightarrow> None | Some k \<Rightarrow> py_digits (10 * acc + k) ds))
      else
        (case digit_of c of None \<Rightarrow> None | Some k \<Rightarrow> py_digits (10 * acc + k) cs))"

definition py_unsigned :: "string \<Rightarrow> nat option" where
  "py_unsigned s =
     (case s of
        [] \<Rightarrow> None
      | c # cs \<Rightarrow> (case digit_of c of None \<Rightarrow> None | Some k \<Rightarrow> py_digits k cs))"

text \<open>\<^verbatim>\<open>int(s)\<close>: \<open>None\<close> stands for the \<^verbatim>\<open>ValueError\<close> it raises.\<close>

definition py_int :: "string \<Rightarrow> int option" where
  "py_int s =
     (case py_strip s of
        [] \<Rightarrow> None
      | c # cs \<Rightarrow>
          if c = CHR ''+'' then map_option int (py_unsigned cs)
          else if c = CHR ''-'' then map_option (\<lambda>n. - int n) (py_unsigned cs)
          else map_option int (py_unsigned (c # cs)))"

text \<open>
  \<^verbatim>\<open>str.capitalize()\<close> on the ASCII letters. A letter beyond ASCII is left as it is: with such a
  letter neither the string nor its capitalization in Python is the symbol of an element.
\<close>

definition to_upper :: "char \<Rightarrow> char" where
  "to_upper c =
     (let k = (of_char c :: nat) in if 97 \<le> k \<and> k \<le> 122 then char_of (k - 32) else c)"

definition to_lower :: "char \<Rightarrow> char" where
  "to_lower c =
     (let k = (of_char c :: nat) in if 65 \<le> k \<and> k \<le> 90 then char_of (k + 32) else c)"

definition capitalize :: "string \<Rightarrow> string" where
  "capitalize s = (case s of [] \<Rightarrow> [] | c # cs \<Rightarrow> to_upper c # map to_lower cs)"

section \<open>\<^verbatim>\<open>transition_line.py\<close>: the class \<^verbatim>\<open>Transition\<close>\<close>

definition elements :: "(int \<times> string) list" where
  "elements =
    [(1, ''H''), (2, ''He''), (3, ''Li''), (4, ''Be''), (5, ''B''), (6, ''C''), (7, ''N''),
     (8, ''O''), (9, ''F''), (10, ''Ne''), (11, ''Na''), (12, ''Mg''), (13, ''Al''),
     (14, ''Si''), (15, ''P''), (16, ''S''), (17, ''Cl''), (18, ''Ar''), (19, ''K''),
     (20, ''Ca''), (21, ''Sc''), (22, ''Ti''), (23, ''V''), (24, ''Cr''), (25, ''Mn''),
     (26, ''Fe''), (27, ''Co''), (28, ''Ni''), (29, ''Cu''), (30, ''Zn''), (31, ''Ga''),
     (32, ''Ge''), (33, ''As''), (34, ''Se''), (35, ''Br''), (36, ''Kr''), (37, ''Rb''),
     (38, ''Sr''), (39, ''Y''), (40, ''Zr''), (41, ''Nb''), (42, ''Mo''), (43, ''Tc''),
     (44, ''Ru''), (45, ''Rh''), (46, ''Pd''), (47, ''Ag''), (48, ''Cd''), (49, ''In''),
     (50, ''Sn''), (51, ''Sb''), (52, ''Te''), (53, ''I''), (54, ''Xe''), (55, ''Cs''),
     (56, ''Ba''), (57, ''La''), (58, ''Ce''), (59, ''Pr''), (60, ''Nd''), (61, ''Pm''),
     (62, ''Sm''), (63, ''Eu''), (64, ''Gd''), (65, ''Tb''), (66, ''Dy''), (67, ''Ho''),
     (68, ''Er''), (69, ''Tm''), (70, ''Yb''), (71, ''Lu''), (72, ''Hf''), (73, ''Ta''),
     (74, ''W''), (75, ''Re''), (76, ''Os''), (77, ''Ir''), (78, ''Pt''), (79, ''Au''),
     (80, ''Hg''), (81, ''Tl''), (82, ''Pb''), (83, ''Bi''), (84, ''Po''), (85, ''At''),
     (86, ''Rn''), (87, ''Fr''), (88, ''Ra''), (89, ''Ac''), (90, ''Th''), (91, ''Pa''),
     (92, ''U'')]"

definition roman_numerals :: "(int \<times> string) list" where
  "roman_numerals =
    [(1, ''I''), (2, ''II''), (3, ''III''), (4, ''IV''), (5, ''V''),
     (6, ''VI''), (7, ''VII''), (8, ''VIII''), (9, ''IX''), (10, ''X'')]"

text \<open>\<^verbatim>\<open>bidict.inv\<close>: the table read from value to key.\<close>

definition inv_lookup :: "('k \<times> 'v) list \<Rightarrow> 'v \<Rightarrow> 'k option" where
  "inv_lookup tab v = map_of (map (\<lambda>(k, w). (w, k)) tab) v"

text \<open>
  The attributes the constructor sets. \<open>atomicSymbol\<close> is \<open>None\<close> on the one path of the
  constructor that never assigns it; the six level attributes are always \<^verbatim>\<open>None\<close> after
  construction. \<open>wavelength\<close> is the value in nanometres.
\<close>

record Transition =
  wavelength :: real
  atomicNumber :: int
  atomicSymbol :: "string option"
  ionizationState :: int
  lowerEnergy :: "real option"
  lowerJ :: "real option"
  lowerOrbital :: "string option"
  higherEnergy :: "real option"
  higherJ :: "real option"
  higherOrbital :: "string option"

text \<open>\<^verbatim>\<open>self.wavelength = wavelength.to(u.nm)\<close>, the \<^verbatim>\<open>AttributeError\<close> re-raised.\<close>

definition wavelength_to_nm :: "wavelength_arg \<Rightarrow> py_error + real" where
  "wavelength_to_nm w =
     (case w of
        Unitless v \<Rightarrow> Inl AttributeError
      | Quantity v un \<Rightarrow>
          (case un of
             Length lu \<Rightarrow> Inr (convert_length lu Nanometer v)
           | _ \<Rightarrow> Inl UnitConversionError))"

text \<open>The branches on \<^verbatim>\<open>element\<close>, in the order of the source.\<close>

definition parse_element :: "py_arg \<Rightarrow> py_error + (int \<times> string option)" where
  "parse_element element =
     (case element of
        PyStr s \<Rightarrow>
          if length s < 3 then
            (case py_int s of
               Some k \<Rightarrow>
                 (case map_of elements k of
                    None \<Rightarrow> Inl KeyError
                  | Some symb \<Rightarrow> Inr (k, Some symb))
             | None \<Rightarrow>
                 (let cap_string = capitalize s in
                  case inv_lookup elements cap_string of
                    None \<Rightarrow> Inl KeyError
                  | Some k \<Rightarrow> Inr (k, Some cap_string)))
          else
            (case py_int s of
               Some k \<Rightarrow> Inr (k, None)
             | None \<Rightarrow> Inl TypeError)
      | PyInt k \<Rightarrow>
          if 0 < k \<and> k < 119 then
            (case map_of elements k of
               None \<Rightarrow> Inl KeyError
             | Some symb \<Rightarrow> Inr (k, Some symb))
          else Inl AssertionError)"

definition parse_ionization :: "py_arg \<Rightarrow> py_error + int" where
  "parse_ionization arg =
     (case arg of
        PyInt k \<Rightarrow> Inr k
      | PyStr s \<Rightarrow>
          (case py_int s of
             Some k \<Rightarrow> Inr k
           | None \<Rightarrow>
               (case inv_lookup roman_numerals s of
                  Some k \<Rightarrow> Inr k
                | None \<Rightarrow> Inl ValueError)))"

definition Transition_init :: "wavelength_arg \<Rightarrow> py_arg \<Rightarrow> py_arg \<Rightarrow> py_error + Transition" where
  "Transition_init wl element ionization =
     (case wavelength_to_nm wl of
        Inl e \<Rightarrow> Inl e
      | Inr w \<Rightarrow>
          (case parse_element element of
             Inl e \<Rightarrow> Inl e
           | Inr (num, symb) \<Rightarrow>
               (case parse_ionization ionization of
                  Inl e \<Rightarrow> Inl e
                | Inr ion \<Rightarrow>
                    Inr \<lparr>wavelength = w, atomicNumber = num, atomicSymbol = symb,
                         ionizationState = ion, lowerEnergy = None, lowerJ = None,
                         lowerOrbital = None, higherEnergy = None, higherJ = None,
                         higherOrbital = None\<rparr>)))"

text \<open>\<^verbatim>\<open>__lt__\<close> and \<^verbatim>\<open>__gt__\<close> compare the wavelength values.\<close>

definition Transition_lt :: "Transition \<Rightarrow> Transition \<Rightarrow> bool" where
  "Transition_lt a b = (if wavelength a < wavelength b then True else False)"

definition Transition_gt :: "Transition \<Rightarrow> Transition \<Rightarrow> bool" where
  "Transition_gt a b = (if wavelength a > wavelength b then True else False)"

section \<open>\<^verbatim>\<open>transition_pair.py\<close>: the class \<^verbatim>\<open>TransitionPair\<close>\<close>

text \<open>
  \<^verbatim>\<open>Transition\<close> defines no \<^verbatim>\<open>__eq__\<close>, so \<^verbatim>\<open>==\<close> on transitions is object identity. A
  pair therefore holds references, and the objects live in a store.
\<close>

type_synonym ref = nat
type_synonym store = "ref \<Rightarrow> Transition"

record TransitionPair =
  lowerEnergyTransition :: ref
  higherEnergyTransition :: ref
  ordersToMeasureIn :: "nat list option"
  velocitySeparation_cached :: "real option"

definition TransitionPair_init :: "store \<Rightarrow> ref \<Rightarrow> ref \<Rightarrow> py_error + TransitionPair" where
  "TransitionPair_init h transition1 transition2 =
     (if Transition_gt (h transition1) (h transition2) then
        Inr \<lparr>lowerEnergyTransition = transition1, higherEnergyTransition = transition2,
             ordersToMeasureIn = None, velocitySeparation_cached = None\<rparr>
      else if Transition_lt (h transition1) (h transition2) then
        Inr \<lparr>lowerEnergyTransition = transition2, higherEnergyTransition = transition1,
             ordersToMeasureIn = None, velocitySeparation_cached = None\<rparr>
      else Inl SameWavelengthsError)"

definition TransitionPair_eq :: "TransitionPair \<Rightarrow> TransitionPair \<Rightarrow> bool" where
  "TransitionPair_eq self other =
     (if lowerEnergyTransition self = lowerEnergyTransition other
         \<and> higherEnergyTransition self = higherEnergyTransition other
      then True else False)"

text \<open>The speed of light \<^verbatim>\<open>u.c\<close>, in metres per second.\<close>

definition speed_of_light :: real where
  "speed_of_light = 299792458"

text \<open>
  \<^verbatim>\<open>wavelength2velocity\<close> of \<^verbatim>\<open>miscellaneous.py\<close>, on two wavelengths in the same unit; the
  result is in metres per second.
\<close>

definition wavelength2velocity :: "real \<Rightarrow> real \<Rightarrow> real" where
  "wavelength2velocity wavelength1 wavelength2 =
     (wavelength2 - wavelength1) * speed_of_light / ((wavelength1 + wavelength2) / 2)"

text \<open>
  The property \<^verbatim>\<open>velocitySeparation\<close>: computed at the first access and kept in
  \<^verbatim>\<open>_velocitySeparation\<close>. It returns the value and the pair with the attribute set.
\<close>

definition velocitySeparation :: "store \<Rightarrow> TransitionPair \<Rightarrow> real \<times> TransitionPair" where
  "velocitySeparation h self =
     (case velocitySeparation_cached self of
        Some v \<Rightarrow> (v, self)
      | None \<Rightarrow>
          (let v = wavelength2velocity
                     (wavelength (h (higherEnergyTransition self)))
                     (wavelength (h (lowerEnergyTransition self)))
           in (v, self\<lparr>velocitySeparation_cached := Some v\<rparr>)))"

section \<open>Floating-point subtraction\<close>

text \<open>
  \<^verbatim>\<open>wavelength2index\<close> compares two computed differences, and which of them is greater can
  depend on their rounding. \<open>round_double x\<close> is the IEEE 754 binary64 number nearest to the
  real \<open>x\<close>, ties going to the even significand: \<open>binade\<close> finds the exponent \<open>e\<close> with
  \<open>2 ^ e \<le> \<bar>x\<bar> < 2 ^ (e + 1)\<close>, kept between \<open>-1022\<close> (below it the numbers are subnormal)
  and \<open>1023\<close>, and the significand is rounded to a multiple of \<open>2 ^ (e - 52)\<close>. A magnitude
  that rounds to \<open>2 ^ 1024\<close> or more overflows to an infinity; \<open>2 ^ 1024\<close>, which is greater
  than every finite number, stands for it.
\<close>

definition pow2 :: "int \<Rightarrow> real" where
  "pow2 e = (if 0 \<le> e then 2 ^ nat e else 1 / 2 ^ nat (- e))"

definition round_half_even :: "real \<Rightarrow> int" where
  "round_half_even y =
     (let f = \<lfloor>y\<rfloor>; r = y - of_int f
      in if r < 1 / 2 then f
         else if 1 / 2 < r then f + 1
         else if even f then f else f + 1)"

fun exponent_down :: "nat \<Rightarrow> real \<Rightarrow> int \<Rightarrow> int" where
  "exponent_down 0 x e = e"
| "exponent_down (Suc fuel) x e = (if 1 \<le> x then e else exponent_down fuel (2 * x) (e - 1))"

fun exponent_up :: "nat \<Rightarrow> real \<Rightarrow> int \<Rightarrow> int" where
  "exponent_up 0 x e = e"
| "exponent_up (Suc fuel) x e = (if x < 2 then e else exponent_up fuel (x / 2) (e + 1))"

definition binade :: "real \<Rightarrow> int" where
  "binade x = (if x < 1 then exponent_down 1022 x 0 else exponent_up 1023 x 0)"

definition round_double :: "real \<Rightarrow> real" where
  "round_double x =
     (if x = 0 then 0
      else (let q = pow2 (binade \<bar>x\<bar> - 52);
                y = q * of_int (round_half_even (\<bar>x\<bar> / q))
            in sgn x * min y (2 ^ 1024)))"


section \<open>\<^verbatim>\<open>miscellaneous.py\<close>: \<^verbatim>\<open>wavelength2index\<close>\<close>




section \<open>\<^verbatim>\<open>conversions.py\<close>\<close>

text \<open>
  Division is the division of the reals; a division by zero, which on \<^verbatim>\<open>numpy\<close> floats gives an
  infinity, is not modelled, and no result below depends on one except where it says so.
\<close>

definition air_indexEdlen53 :: "real \<Rightarrow> real \<Rightarrow> real \<Rightarrow> real" where
  "air_indexEdlen53 l t p =
     (1 / 10 ^ 6) * p * (1 + (1.049 - 0.0157 * t) * (1 / 10 ^ 6) * p) / 720.883
         / (1 + 0.003661 * t)
         * (64.328 + 29498.1 / (146 - (10 ^ 4 / l) ^ 2) + 255.4 / (41 - (10 ^ 4 / l) ^ 2))
     + 1"

text \<open>The call \<^verbatim>\<open>air_indexEdlen53(l)\<close> with the default temperature and pressure.\<close>

abbreviation air_index :: "real \<Rightarrow> real" where
  "air_index l \<equiv> air_indexEdlen53 l 15 760"

text \<open>\<^verbatim>\<open>vac2airESO\<close> on a bare float, in Angstroms (\<^verbatim>\<open>original_units = 1\<close>).\<close>

definition vac2airESO :: "real \<Rightarrow> real" where
  "vac2airESO ll = ll / air_index ll * 1"

definition tolerance :: real where
  "tolerance = 2 / 10 ^ 12"

definition num_iter :: nat where
  "num_iter = 100"

text \<open>
  The \<^verbatim>\<open>while\<close> loop of \<^verbatim>\<open>air2vacESO\<close> for one element. On leaving the loop it returns the
  values of \<^verbatim>\<open>new_wavelength\<close>, \<^verbatim>\<open>old_wavelength\<close> and \<^verbatim>\<open>iterations\<close>.
\<close>

function air2vac_loop :: "real \<Rightarrow> real \<Rightarrow> real \<Rightarrow> nat \<Rightarrow> py_error + (real \<times> real \<times> nat)" where
  "air2vac_loop air old_wavelength new_wavelength iterations =
     (if \<bar>old_wavelength - new_wavelength\<bar> > tolerance then
        (if iterations + 1 > num_iter then Inl RuntimeError
         else air2vac_loop air new_wavelength (air * air_index new_wavelength) (iterations + 1))
      else Inr (new_wavelength, old_wavelength, iterations))"
  by pat_completeness auto
termination
  by (relation "measure (\<lambda>(air, old_wavelength, new_wavelength, iterations). num_iter - iterations)")
     auto

declare air2vac_loop.simps [simp del]

text \<open>The body of the \<^verbatim>\<open>for\<close> loop: one air wavelength in Angstroms to one vacuum wavelength.\<close>

definition air2vac_element :: "real \<Rightarrow> py_error + real" where
  "air2vac_element air =
     (case air2vac_loop air 0 air 0 of
        Inl e \<Rightarrow> Inl e
      | Inr (new_wavelength, old_wavelength, iterations) \<Rightarrow> Inr new_wavelength)"

text \<open>The \<^verbatim>\<open>for\<close> loop, appending to \<^verbatim>\<open>vacuum_wavelengths_list\<close>.\<close>

fun air2vac_list :: "real list \<Rightarrow> real list \<Rightarrow> py_error + real list" where
  "air2vac_list [] vacuum_wavelengths_list = Inr vacuum_wavelengths_list"
| "air2vac_list (air # rest) vacuum_wavelengths_list =
     (case air2vac_element air of
        Inl e \<Rightarrow> Inl e
      | Inr new_wavelength \<Rightarrow> air2vac_list rest (vacuum_wavelengths_list @ [new_wavelength]))"

text \<open>
  A two-dimensional \<^verbatim>\<open>numpy\<close> array: its shape and its entries. A \<^verbatim>\<open>unyt_array\<close> of
  wavelengths is a one- or two-dimensional array with a unit of length.
\<close>

record ndarray2 =
  nrows :: nat
  ncols :: nat
  cell :: "nat \<Rightarrow> nat \<Rightarrow> real"

datatype ndarray = A1 "real list" | A2 ndarray2

record unyt_array =
  ndview :: ndarray
  units :: length_unit

definition flatten :: "ndarray2 \<Rightarrow> real list" where
  "flatten a = concat (map (\<lambda>r. map (cell a r) [0..<ncols a]) [0..<nrows a])"

definition reshape :: "real list \<Rightarrow> nat \<times> nat \<Rightarrow> ndarray2" where
  "reshape xs sh = \<lparr>nrows = fst sh, ncols = snd sh, cell = (\<lambda>r c. xs ! (r * snd sh + c))\<rparr>"

definition shape :: "ndarray \<Rightarrow> nat list" where
  "shape a = (case a of A1 xs \<Rightarrow> [length xs] | A2 g \<Rightarrow> [nrows g, ncols g])"

text \<open>
  The values of an array as \<^verbatim>\<open>air2vacESO\<close> visits them: flattened when the array has two
  dimensions, and converted to Angstroms.
\<close>

definition flat_values :: "ndarray \<Rightarrow> real list" where
  "flat_values a = (case a of A1 xs \<Rightarrow> xs | A2 g \<Rightarrow> flatten g)"

definition angstrom_values :: "unyt_array \<Rightarrow> real list" where
  "angstrom_values a = map (convert_length (units a) Angstrom) (flat_values (ndview a))"

text \<open>
  \<^verbatim>\<open>air2vacESO\<close>: the array is flattened when it has two dimensions, converted to Angstroms,
  converted element by element, reshaped, and converted back to the units it came in.
\<close>

definition air2vacESO :: "unyt_array \<Rightarrow> py_error + unyt_array" where
  "air2vacESO air_wavelengths_array =
     (let original_units = units air_wavelengths_array in
      case air2vac_list (angstrom_values air_wavelengths_array) [] of
        Inl e \<Rightarrow> Inl e
      | Inr vacuum_wavelengths_list \<Rightarrow>
          (let vacuum = map (convert_length Angstrom original_units) vacuum_wavelengths_list
           in Inr \<lparr>ndview = (case ndview air_wavelengths_array of
                               A1 xs \<Rightarrow> A1 vacuum
                             | A2 g \<Rightarrow> A2 (reshape vacuum (nrows g, ncols g))),
                   units = original_units\<rparr>))"

text \<open>
  \<^verbatim>\<open>vac2airESO\<close> on a \<^verbatim>\<open>unyt_array\<close>: the values are converted to Angstroms, divided by the
  index of refraction, and multiplied by the original unit.
\<close>

definition vac2airESO_array :: "unyt_array \<Rightarrow> unyt_array" where
  "vac2airESO_array ll =
     \<lparr>ndview = (case ndview ll of
                  A1 xs \<Rightarrow> A1 (map vac2airESO (angstrom_values ll))
                | A2 g \<Rightarrow> A2 (reshape (map vac2airESO (angstrom_values ll)) (nrows g, ncols g))),
      units = units ll\<rparr>"

definition vac2airMorton00 :: "real \<Rightarrow> real" where
  "vac2airMorton00 wl_vac =
     (let s = 10 ^ 4 / wl_vac;
          n = 1 + 0.0000834254 + (0.02406147 / (130 - s ^ 2)) + (0.00015998 / (38.9 - s ^ 2))
      in wl_vac / n)"

definition air2vacMortonIAU :: "real \<Rightarrow> real" where
  "air2vacMortonIAU wl_air =
     (let s = 10 ^ 4 / wl_air;
          n = 1 + 0.00008336624212083 + (0.02408926869968 / (130.1065924522 - s ^ 2))
                + (0.0001599740894897 / (38.92568793293 - s ^ 2))
      in wl_air * n)"

text \<open>
  The iterates of the fixed-point iteration, for stating what the loop computes:
  \<open>iterate air k\<close> is \<^verbatim>\<open>new_wavelength\<close> after \<open>k\<close> passes, \<open>previous air k\<close> is
  \<^verbatim>\<open>old_wavelength\<close> then, and \<open>converged air k\<close> says that the loop condition is false there.
\<close>

primrec iterate :: "real \<Rightarrow> nat \<Rightarrow> real" where
  "iterate air 0 = air"
| "iterate air (Suc k) = air * air_index (iterate air k)"

definition previous :: "real \<Rightarrow> nat \<Rightarrow> real" where
  "previous air k = (case k of 0 \<Rightarrow> 0 | Suc j \<Rightarrow> iterate air j)"

definition converged :: "real \<Rightarrow> nat \<Rightarrow> bool" where
  "converged air k = (\<not> \<bar>previous air k - iterate air k\<bar> > tolerance)"

section \<open>\<^verbatim>\<open>obs2d.py\<close>: the class \<^verbatim>\<open>HARPSFile2DScience\<close>\<close>

text \<open>A velocity with its unit: \<^verbatim>\<open>u.km / u.s\<close> or \<^verbatim>\<open>u.m / u.s\<close>.\<close>

datatype velocity_unit = KmPerS | MPerS

record unyt_velocity =
  speed :: real
  speed_unit :: velocity_unit

text \<open>
  The attributes the two methods below read: the cards of the FITS header that hold numbers, the
  raw flux array, the three wavelength arrays (the last two are \<^verbatim>\<open>None\<close> until they are
  computed) and the barycentric Earth radial velocity, which the constructor sets in km/s.
\<close>

record HARPSFile2DScience =
  header :: "string \<rightharpoonup> real"
  rawFluxArray :: ndarray2
  wavelengthArray :: unyt_array
  vacuumArray :: "unyt_array option"
  barycentricArray :: "unyt_array option"
  BERV :: unyt_velocity

text \<open>\<^verbatim>\<open>'{0}'.format(k)\<close> for a non-negative integer: its decimal digits.\<close>

function string_of_nat :: "nat \<Rightarrow> string" where
  "string_of_nat n =
     (if n < 10 then [char_of (48 + n)]
      else string_of_nat (n div 10) @ [char_of (48 + n mod 10)])"
  by pat_completeness auto
termination
  by (relation "measure (\<lambda>n. n)") auto

declare string_of_nat.simps [simp del]

definition coeff_key :: "nat \<Rightarrow> string" where
  "coeff_key k = ''ESO DRS CAL TH COEFF LL'' @ string_of_nat k"

text \<open>
  What the decimal numeral of a number is, said without \<open>string_of_nat\<close>: a non-empty string
  of digits, without a leading zero unless it is the single digit, whose value is the number.
\<close>

definition decimal_value :: "string \<Rightarrow> nat" where
  "decimal_value s = foldl (\<lambda>acc c. 10 * acc + (of_char c - 48)) 0 s"

definition is_decimal_of :: "string \<Rightarrow> nat \<Rightarrow> bool" where
  "is_decimal_of s n =
     (s \<noteq> [] \<and> (\<forall>c \<in> set s. 48 \<le> (of_char c :: nat) \<and> (of_char c :: nat) \<le> 57)
      \<and> (1 < length s \<longrightarrow> hd s \<noteq> CHR ''0'') \<and> decimal_value s = n)"

definition zeros :: "nat \<times> nat \<Rightarrow> ndarray2" where
  "zeros sh = \<lparr>nrows = fst sh, ncols = snd sh, cell = (\<lambda>r c. 0)\<rparr>"

text \<open>
  The three nested loops of \<^verbatim>\<open>getWavelengthArray\<close>, innermost first. Writing an entry outside
  the array raises \<^verbatim>\<open>IndexError\<close>; a missing header card raises \<^verbatim>\<open>KeyError\<close>.
\<close>

fun pixel_loop :: "ndarray2 \<Rightarrow> nat \<Rightarrow> real \<Rightarrow> nat \<Rightarrow> nat list \<Rightarrow> py_error + ndarray2" where
  "pixel_loop wavelength_array order coeff_val i [] = Inr wavelength_array"
| "pixel_loop wavelength_array order coeff_val i (pixel # rest) =
     (if order < nrows wavelength_array \<and> pixel < ncols wavelength_array then
        pixel_loop
          (wavelength_array\<lparr>cell :=
             (cell wavelength_array)(order :=
               (cell wavelength_array order)(pixel :=
                 cell wavelength_array order pixel + coeff_val * (real pixel ^ i)))\<rparr>)
          order coeff_val i rest
      else Inl IndexError)"

fun coeff_loop :: "(string \<rightharpoonup> real) \<Rightarrow> ndarray2 \<Rightarrow> nat \<Rightarrow> nat list \<Rightarrow> py_error + ndarray2" where
  "coeff_loop hdr wavelength_array order [] = Inr wavelength_array"
| "coeff_loop hdr wavelength_array order (i # rest) =
     (case hdr (coeff_key ((4 * order) + i)) of
        None \<Rightarrow> Inl KeyError
      | Some coeff_val \<Rightarrow>
          (case pixel_loop wavelength_array order coeff_val i [0..<4096] of
             Inl e \<Rightarrow> Inl e
           | Inr wavelength_array' \<Rightarrow> coeff_loop hdr wavelength_array' order rest))"

fun order_loop :: "(string \<rightharpoonup> real) \<Rightarrow> ndarray2 \<Rightarrow> nat list \<Rightarrow> py_error + ndarray2" where
  "order_loop hdr wavelength_array [] = Inr wavelength_array"
| "order_loop hdr wavelength_array (order # rest) =
     (case coeff_loop hdr wavelength_array order [0..<4] of
        Inl e \<Rightarrow> Inl e
      | Inr wavelength_array' \<Rightarrow> order_loop hdr wavelength_array' rest)"

definition getWavelengthArray :: "HARPSFile2DScience \<Rightarrow> py_error + unyt_array" where
  "getWavelengthArray self =
     (let source_array = rawFluxArray self;
          wavelength_array = zeros (nrows source_array, ncols source_array)
      in case order_loop (header self) wavelength_array [0..<72] of
           Inl e \<Rightarrow> Inl e
         | Inr wavelength_array' \<Rightarrow> Inr \<lparr>ndview = A2 wavelength_array', units = Angstrom\<rparr>)"

text \<open>\<^verbatim>\<open>getVacuumArray\<close>; \<^verbatim>\<open>_wavelengthArray\<close> is never \<^verbatim>\<open>None\<close> after construction.\<close>

definition getVacuumArray :: "HARPSFile2DScience \<Rightarrow> py_error + unyt_array" where
  "getVacuumArray self = air2vacESO (wavelengthArray self)"

definition map_ndarray :: "(real \<Rightarrow> real) \<Rightarrow> ndarray \<Rightarrow> ndarray" where
  "map_ndarray f a =
     (case a of
        A1 xs \<Rightarrow> A1 (map f xs)
      | A2 g \<Rightarrow> A2 (g\<lparr>cell := (\<lambda>r c. f (cell g r c))\<rparr>))"

text \<open>\<^verbatim>\<open>convert_to_units\<close> on an array of lengths and on a velocity.\<close>

definition convert_array :: "length_unit \<Rightarrow> unyt_array \<Rightarrow> unyt_array" where
  "convert_array dst a =
     \<lparr>ndview = map_ndarray (convert_length (units a) dst) (ndview a), units = dst\<rparr>"

definition in_metres_per_second :: "unyt_velocity \<Rightarrow> unyt_velocity" where
  "in_metres_per_second v =
     \<lparr>speed = (case speed_unit v of KmPerS \<Rightarrow> speed v * 1000 | MPerS \<Rightarrow> speed v),
      speed_unit = MPerS\<rparr>"

text \<open>
  \<^verbatim>\<open>shift_wavelength\<close> of \<^verbatim>\<open>miscellaneous.py\<close>. It converts both of its arguments in place, the
  wavelengths to metres and the velocity to m/s, so it returns the result (in the original units
  of the wavelengths) together with the two arguments as it leaves them.
\<close>

definition shift_wavelength ::
  "unyt_array \<Rightarrow> unyt_velocity \<Rightarrow> (py_error + unyt_array) \<times> unyt_array \<times> unyt_velocity" where
  "shift_wavelength wl shift_velocity =
     (let original_units = units wl;
          wl' = convert_array Meter wl;
          shift_velocity' = in_metres_per_second shift_velocity
      in if \<not> \<bar>speed shift_velocity'\<bar> < speed_of_light
         then (Inl AssertionError, wl', shift_velocity')
         else
           (let result = wl'\<lparr>ndview :=
                  map_ndarray (\<lambda>x. ((speed shift_velocity' / speed_of_light) * x) + x)
                    (ndview wl')\<rparr>
            in (Inr (convert_array original_units result), wl', shift_velocity')))"

definition shiftWavelengthArray ::
  "unyt_array \<Rightarrow> unyt_velocity \<Rightarrow> (py_error + unyt_array) \<times> unyt_array \<times> unyt_velocity" where
  "shiftWavelengthArray wavelength_array shift_velocity =
     shift_wavelength wavelength_array shift_velocity"

text \<open>
  \<^verbatim>\<open>getBarycentricArray\<close>: the result, and the object afterwards. \<^verbatim>\<open>_vacuumArray\<close> and \<^verbatim>\<open>_BERV\<close>
  are the objects passed to \<^verbatim>\<open>shift_wavelength\<close>, so they are left in metres and in m/s.
\<close>

definition getBarycentricArray ::
  "HARPSFile2DScience \<Rightarrow> (py_error + unyt_array) \<times> HARPSFile2DScience" where
  "getBarycentricArray self =
     (case vacuumArray self of
        Some vacuum \<Rightarrow>
          (case shiftWavelengthArray vacuum (BERV self) of
             (barycentric, vacuum', berv') \<Rightarrow>
               (barycentric, self\<lparr>vacuumArray := Some vacuum', BERV := berv'\<rparr>))
      | None \<Rightarrow>
          (case getVacuumArray self of
             Inl e \<Rightarrow> (Inl e, self)
           | Inr vacuum \<Rightarrow>
               (case shiftWavelengthArray vacuum (BERV self) of
                  (barycentric, vacuum', berv') \<Rightarrow>
                    (barycentric, self\<lparr>vacuumArray := Some vacuum', BERV := berv'\<rparr>))))"

text \<open>
  \<^verbatim>\<open>a[i, j]\<close> on a two-dimensional array, in Angstroms; a negative index counts from the end.
\<close>

definition item2 :: "unyt_array \<Rightarrow> int \<Rightarrow> int \<Rightarrow> py_error + real" where
  "item2 a i j =
     (case ndview a of
        A1 xs \<Rightarrow> Inl IndexError
      | A2 g \<Rightarrow>
          (let r = (if i < 0 then int (nrows g) + i else i);
               c = (if j < 0 then int (ncols g) + j else j)
           in if 0 \<le> r \<and> r < int (nrows g) \<and> 0 \<le> c \<and> c < int (ncols g)
              then Inr (convert_length (units a) Angstrom (cell g (nat r) (nat c)))
              else Inl IndexError))"

text \<open>The loop of \<^verbatim>\<open>findWavelength\<close> over the orders, appending those that hold the wavelength.\<close>

fun find_orders :: "unyt_array \<Rightarrow> real \<Rightarrow> nat list \<Rightarrow> nat list \<Rightarrow> py_error + nat list" where
  "find_orders wl_array wavelength_to_find [] orders_wavelength_found_in =
     Inr orders_wavelength_found_in"
| "find_orders wl_array wavelength_to_find (order # rest) orders_wavelength_found_in =
     (case item2 wl_array (int order) 0 of
        Inl e \<Rightarrow> Inl e
      | Inr order_min \<Rightarrow>
          (case item2 wl_array (int order) (- 1) of
             Inl e \<Rightarrow> Inl e
           | Inr order_max \<Rightarrow>
               find_orders wl_array wavelength_to_find rest
                 (if order_min \<le> wavelength_to_find \<and> wavelength_to_find \<le> order_max
                  then orders_wavelength_found_in @ [order]
                  else orders_wavelength_found_in)))"

text \<open>What \<^verbatim>\<open>findWavelength\<close> returns: an \<^verbatim>\<open>int\<close>, or a tuple of ints.\<close>

datatype found = Order nat | Orders "nat list"

text \<open>
  The part of \<^verbatim>\<open>findWavelength\<close> after the barycentric array is at hand. When
  \<^verbatim>\<open>closest_only\<close> is true and the wavelength was not found in exactly one order, the
  \<^verbatim>\<open>elif\<close> evaluates \<^verbatim>\<open>len(orders_wavelength_found_in == 2)\<close>: the comparison of a list with 2 is
  \<^verbatim>\<open>False\<close>, and \<^verbatim>\<open>len(False)\<close> raises \<^verbatim>\<open>TypeError\<close>. The body of that branch never runs.
\<close>

definition findWavelength_search :: "unyt_array \<Rightarrow> unyt_array \<Rightarrow> real \<Rightarrow> bool \<Rightarrow> py_error + found" where
  "findWavelength_search barycentric wl_array wavelength_to_find closest_only =
     (case item2 barycentric 0 0 of
        Inl e \<Rightarrow> Inl e
      | Inr array_min \<Rightarrow>
          (case item2 barycentric 71 (- 1) of
             Inl e \<Rightarrow> Inl e
           | Inr array_max \<Rightarrow>
               if \<not> (array_min \<le> wavelength_to_find \<and> wavelength_to_find \<le> array_max)
               then Inl AssertionError
               else
                 (case find_orders wl_array wavelength_to_find [0..<72] [] of
                    Inl e \<Rightarrow> Inl e
                  | Inr orders_wavelength_found_in \<Rightarrow>
                      if \<not> length orders_wavelength_found_in < 3 then Inl AssertionError
                      else if closest_only then
                        (if length orders_wavelength_found_in = 1
                         then Inr (Order (orders_wavelength_found_in ! 0))
                         else Inl TypeError)
                      else Inr (Orders orders_wavelength_found_in))))"

text \<open>
  \<^verbatim>\<open>findWavelength\<close>, the wavelength in Angstroms: the result, and the object with the arrays
  it has computed on the way.
\<close>

definition findWavelength ::
  "HARPSFile2DScience \<Rightarrow> real \<Rightarrow> bool \<Rightarrow> (py_error + found) \<times> HARPSFile2DScience" where
  "findWavelength self wavelength_to_find closest_only =
     (case barycentricArray self of
        Some barycentric \<Rightarrow>
          (findWavelength_search barycentric (wavelengthArray self) wavelength_to_find closest_only,
           self)
      | None \<Rightarrow>
          (case getBarycentricArray self of
             (Inl e, self') \<Rightarrow> (Inl e, self')
           | (Inr barycentric, self') \<Rightarrow>
               (findWavelength_search barycentric (wavelengthArray self') wavelength_to_find
                  closest_only,
                self'\<lparr>barycentricArray := Some barycentric\<rparr>)))"

subsection \<open>Sample objects\<close>

definition example_store :: store where
  "example_store r =
     (if r = 0 then
        \<lparr>wavelength = 500, atomicNumber = 26, atomicSymbol = Some ''Fe'', ionizationState = 1,
         lowerEnergy = None, lowerJ = None, lowerOrbital = None, higherEnergy = None,
         higherJ = None, higherOrbital = None\<rparr>
      else
        \<lparr>wavelength = 600, atomicNumber = 28, atomicSymbol = Some ''Ni'', ionizationState = 2,
         lowerEnergy = None, lowerJ = None, lowerOrbital = None, higherEnergy = None,
         higherJ = None, higherOrbital = None\<rparr>)"

definition negative_store :: store where
  "negative_store r =
     (if r = 0 then
        \<lparr>wavelength = - 500, atomicNumber = 26, atomicSymbol = Some ''Fe'', ionizationState = 1,
         lowerEnergy = None, lowerJ = None, lowerOrbital = None, higherEnergy = None,
         higherJ = None, higherOrbital = None\<rparr>
      else
        \<lparr>wavelength = - 400, atomicNumber = 28, atomicSymbol = Some ''Ni'', ionizationState = 2,
         lowerEnergy = None, lowerJ = None, lowerOrbital = None, higherEnergy = None,
         higherJ = None, higherOrbital = None\<rparr>)"



text \<open>The wavelengths HARPS records, 378 nm to 691 nm, in Angstroms.\<close>

definition harps_range :: "real \<Rightarrow> bool" where
  "harps_range l = (3780 \<le> l \<and> l \<le> 6910)"

definition sample_air_array :: unyt_array where
  "sample_air_array = \<lparr>ndview = A1 [3800, 5000, 6900], units = Angstrom\<rparr>"

definition tiny_air_array :: unyt_array where
  "tiny_air_array = \<lparr>ndview = A1 [1 / 10 ^ 12], units = Angstrom\<rparr>"

text \<open>
  A header whose card \<^verbatim>\<open>ESO DRS CAL TH COEFF LLk\<close> holds the number \<open>k\<close>, and a newly opened
  observation of 72 orders by 4096 pixels: order \<open>o\<close> covers the air wavelengths from
  \<open>3800 + 30.5 o\<close> Angstroms in steps of \<open>1/80\<close> Angstrom, so that neighbouring orders
  overlap. The vacuum and the barycentric array are not computed yet, and the radial velocity
  is 10 km/s.
\<close>

definition sample_header :: "string \<rightharpoonup> real" where
  "sample_header s =
     (if take 23 s = ''ESO DRS CAL TH COEFF LL'' then Some (real (decimal_value (drop 23 s)))
      else None)"

definition sample_grid :: ndarray2 where
  "sample_grid =
     \<lparr>nrows = 72, ncols = 4096, cell = (\<lambda>r c. 3800 + 61 / 2 * real r + real c / 80)\<rparr>"

definition sample_obs :: HARPSFile2DScience where
  "sample_obs =
     \<lparr>header = sample_header,
      rawFluxArray = zeros (72, 4096),
      wavelengthArray = \<lparr>ndview = A2 sample_grid, units = Angstrom\<rparr>,
      vacuumArray = None,
      barycentricArray = None,
      BERV = \<lparr>speed = 10, speed_unit = KmPerS\<rparr>\<rparr>"


section \<open>Properties of \<^verbatim>\<open>Transition\<close>\<close>

lemma Transition_init_int_args:
  "Transition_init (Quantity v (Length lu)) (PyInt 26) (PyInt k) =
     Inr \<lparr>wavelength = convert_length lu Nanometer v, atomicNumber = 26,
          atomicSymbol = Some ''Fe'', ionizationState = k, lowerEnergy = None, lowerJ = None,
          lowerOrbital = None, higherEnergy = None, higherJ = None, higherOrbital = None\<rparr>"
  by (simp add: Transition_init_def wavelength_to_nm_def parse_element_def parse_ionization_def
      elements_def)





text \<open>
  C7. A wavelength without units raises (the \<^verbatim>\<open>AttributeError\<close> of the missing \<^verbatim>\<open>.to\<close>), whatever
  the other arguments are, and so does one whose units are not a length; no object is returned.
  A wavelength with units of length is stored converted to nanometres.
\<close>

theorem Transition_init_units:
  "Transition_init (Unitless v) el ion = Inl AttributeError
   \<and> (\<forall>un. (\<forall>lu. un \<noteq> Length lu) \<longrightarrow>
         Transition_init (Quantity v un) el ion = Inl UnitConversionError)
   \<and> (\<forall>lu t. Transition_init (Quantity v (Length lu)) el ion = Inr t \<longrightarrow>
         wavelength t = convert_length lu Nanometer v)"
  by (auto simp: Transition_init_def wavelength_to_nm_def
      split: sum.splits prod.splits unyt_unit.splits)

theorem Transition_init_units_witness:
  "Transition_init (Unitless 5000) (PyInt 26) (PyInt 1) = Inl AttributeError
   \<and> Transition_init (Quantity 5000 Second) (PyInt 26) (PyInt 1) = Inl UnitConversionError
   \<and> (\<exists>t. Transition_init (Quantity 5000 (Length Angstrom)) (PyInt 26) (PyInt 1) = Inr t
          \<and> wavelength t = 500)"
proof -
  obtain t where h: "Transition_init (Quantity 5000 (Length Angstrom)) (PyInt 26) (PyInt 1) = Inr t"
    by (simp add: Transition_init_int_args)
  from Transition_init_units [of 5000 "PyInt 26" "PyInt 1"] h
  have "Transition_init (Unitless 5000) (PyInt 26) (PyInt 1) = Inl AttributeError"
    and "Transition_init (Quantity 5000 Second) (PyInt 26) (PyInt 1) = Inl UnitConversionError"
    and "wavelength t = convert_length Angstrom Nanometer 5000"
    by auto
  with h show ?thesis
    by (auto simp: convert_length_def)
qed

section \<open>Properties of \<^verbatim>\<open>TransitionPair\<close>\<close>

text \<open>
  C4. Two transitions of equal wavelength raise \<^verbatim>\<open>SameWavelengthsError\<close>. A pair that is
  constructed holds the two given transitions, their wavelengths differ, the stored
  higher-energy member has the strictly shorter wavelength, and the arguments in the other order
  give an equal pair.
\<close>

theorem TransitionPair_members_distinct:
  "(wavelength (h t1) = wavelength (h t2) \<longrightarrow>
      TransitionPair_init h t1 t2 = Inl SameWavelengthsError)
   \<and> (\<forall>p. TransitionPair_init h t1 t2 = Inr p \<longrightarrow>
        wavelength (h t1) \<noteq> wavelength (h t2)
        \<and> wavelength (h (higherEnergyTransition p)) < wavelength (h (lowerEnergyTransition p))
        \<and> {higherEnergyTransition p, lowerEnergyTransition p} = {t1, t2}
        \<and> (\<exists>q. TransitionPair_init h t2 t1 = Inr q \<and> TransitionPair_eq p q))"
  by (auto simp: TransitionPair_init_def Transition_gt_def Transition_lt_def TransitionPair_eq_def
      split: if_splits)

theorem TransitionPair_members_distinct_witness:
  "TransitionPair_init example_store 0 0 = Inl SameWavelengthsError
   \<and> (\<exists>p q. TransitionPair_init example_store 0 1 = Inr p
          \<and> TransitionPair_init example_store 1 0 = Inr q
          \<and> TransitionPair_eq p q
          \<and> higherEnergyTransition p = 0 \<and> lowerEnergyTransition p = 1)"
proof -
  have same: "wavelength (example_store 0) = wavelength (example_store 0)"
    by simp
  obtain p where p: "TransitionPair_init example_store 0 1 = Inr p"
    and hl: "higherEnergyTransition p = 0" "lowerEnergyTransition p = 1"
    by (simp add: TransitionPair_init_def Transition_gt_def Transition_lt_def example_store_def)
  from TransitionPair_members_distinct [of example_store 0 0] same
  have "TransitionPair_init example_store 0 0 = Inl SameWavelengthsError"
    by blast
  moreover from TransitionPair_members_distinct [of example_store 0 1] p
  obtain q where "TransitionPair_init example_store 1 0 = Inr q" "TransitionPair_eq p q"
    by blast
  ultimately show ?thesis
    using p hl by blast
qed

text \<open>
  C10 (as amended). The velocity separation of a constructed pair is the difference of the
  lower-energy and the higher-energy wavelength, times c, divided by the mean of the two. The
  difference is positive by the stored ordering, so the value is strictly positive when the two
  wavelengths have a positive sum (as two positive wavelengths do), and strictly negative when
  the sum is negative.
\<close>

theorem velocitySeparation_sign:
  assumes "TransitionPair_init h t1 t2 = Inr p"
  shows "fst (velocitySeparation h p) =
           (wavelength (h (lowerEnergyTransition p)) - wavelength (h (higherEnergyTransition p)))
             * speed_of_light
             / ((wavelength (h (higherEnergyTransition p))
                 + wavelength (h (lowerEnergyTransition p))) / 2)
         \<and> (0 < wavelength (h t1) \<and> 0 < wavelength (h t2) \<longrightarrow>
              0 < fst (velocitySeparation h p))
         \<and> (0 < wavelength (h t1) + wavelength (h t2) \<longrightarrow> 0 < fst (velocitySeparation h p))
         \<and> (wavelength (h t1) + wavelength (h t2) < 0 \<longrightarrow> fst (velocitySeparation h p) < 0)"
  using assms
  by (auto simp: TransitionPair_init_def Transition_gt_def Transition_lt_def velocitySeparation_def
      wavelength2velocity_def speed_of_light_def Let_def zero_less_divide_iff divide_less_0_iff
      zero_less_mult_iff mult_less_0_iff
      split: if_splits)

theorem velocitySeparation_sign_witness:
  "\<exists>p. TransitionPair_init example_store 0 1 = Inr p
       \<and> 0 < fst (velocitySeparation example_store p)"
proof -
  obtain p where p: "TransitionPair_init example_store 0 1 = Inr p"
    by (simp add: TransitionPair_init_def Transition_gt_def Transition_lt_def example_store_def)
  have "0 < wavelength (example_store 0) \<and> 0 < wavelength (example_store 1)"
    by (simp add: example_store_def)
  with velocitySeparation_sign [OF p] have "0 < fst (velocitySeparation example_store p)"
    by blast
  with p show ?thesis by blast
qed

text \<open>
  C10 (as stated) fails: two transitions of negative wavelength, which the constructor of
  \<^verbatim>\<open>Transition\<close> accepts, make a pair whose velocity separation is negative.
\<close>

theorem velocitySeparation_negative_example:
  "Transition_init (Quantity (- 500) (Length Nanometer)) (PyInt 26) (PyInt 1)
     = Inr (negative_store 0)
   \<and> Transition_init (Quantity (- 400) (Length Nanometer)) (PyInt 28) (PyInt 2)
     = Inr (negative_store 1)
   \<and> TransitionPair_init negative_store 0 1 =
       Inr \<lparr>lowerEnergyTransition = 1, higherEnergyTransition = 0,
            ordersToMeasureIn = None, velocitySeparation_cached = None\<rparr>
   \<and> fst (velocitySeparation negative_store
            \<lparr>lowerEnergyTransition = 1, higherEnergyTransition = 0,
             ordersToMeasureIn = None, velocitySeparation_cached = None\<rparr>) < 0"
  by (simp add: Transition_init_def wavelength_to_nm_def parse_element_def parse_ionization_def
      elements_def convert_length_def negative_store_def TransitionPair_init_def
      Transition_gt_def Transition_lt_def velocitySeparation_def wavelength2velocity_def
      speed_of_light_def Let_def)

section \<open>Properties of \<^verbatim>\<open>wavelength2index\<close>\<close>

subsection \<open>Rounding to the nearest double\<close>

lemma exponent_up_numeral:
  "exponent_up (numeral n) x e = (if x < 2 then e else exponent_up (pred_numeral n) (x / 2) (e + 1))"
  by (simp add: numeral_eq_Suc)

lemma exponent_down_numeral:
  "exponent_down (numeral n) x e = (if 1 \<le> x then e else exponent_down (pred_numeral n) (2 * x) (e - 1))"
  by (simp add: numeral_eq_Suc)

lemmas round_double_eval =
  round_double_def Let_def binade_def pow2_def round_half_even_def
  exponent_up_numeral exponent_down_numeral




subsection \<open>The index returned\<close>

lemma round_double_examples:
  "round_double (1 / 10) = 3602879701896397 / 2 ^ 55"
  "round_double (1 + 1 / 2 ^ 53) = 1"
  "round_double (1 + 3 / 2 ^ 53) = 1 + 1 / 2 ^ 51"
  by (simp_all add: round_double_eval)





section \<open>Properties of \<^verbatim>\<open>air2vacESO\<close>\<close>

subsection \<open>What the loops compute\<close>

lemma air2vac_loop_step:
  "air2vac_loop air (previous air k) (iterate air k) k =
     (if converged air k then Inr (iterate air k, previous air k, k)
      else if k + 1 > num_iter then Inl RuntimeError
      else air2vac_loop air (previous air (Suc k)) (iterate air (Suc k)) (Suc k))"
  by (subst air2vac_loop.simps) (simp add: converged_def previous_def)

lemma air2vac_loop_converges:
  assumes "k \<le> j" "j \<le> num_iter" "converged air j" "\<forall>i. k \<le> i \<and> i < j \<longrightarrow> \<not> converged air i"
  shows "air2vac_loop air (previous air k) (iterate air k) k =
           Inr (iterate air j, previous air j, j)"
  using assms
proof (induction "j - k" arbitrary: k)
  case 0
  then have "k = j" by simp
  with 0 show ?case by (simp add: air2vac_loop_step)
next
  case (Suc d)
  then have lt: "k < j" by simp
  then have nc: "\<not> converged air k" using Suc.prems by simp
  have "air2vac_loop air (previous air (Suc k)) (iterate air (Suc k)) (Suc k) =
           Inr (iterate air j, previous air j, j)"
    using Suc.hyps(2) Suc.prems lt by (intro Suc.hyps(1)) auto
  with nc lt Suc.prems(2) show ?case
    by (subst air2vac_loop_step) simp
qed

lemma air2vac_loop_raises:
  assumes "k \<le> num_iter" "\<forall>i. k \<le> i \<and> i \<le> num_iter \<longrightarrow> \<not> converged air i"
  shows "air2vac_loop air (previous air k) (iterate air k) k = Inl RuntimeError"
  using assms
proof (induction "num_iter - k" arbitrary: k)
  case 0
  then have "k = num_iter" by simp
  with 0 show ?case by (subst air2vac_loop_step) simp
next
  case (Suc d)
  then have lt: "k < num_iter" by simp
  have nc: "\<not> converged air k" using Suc.prems by simp
  have "air2vac_loop air (previous air (Suc k)) (iterate air (Suc k)) (Suc k) = Inl RuntimeError"
    using Suc.hyps(2) Suc.prems lt by (intro Suc.hyps(1)) auto
  with nc lt show ?case
    by (subst air2vac_loop_step) simp
qed

text \<open>The first pass at which the loop condition is false, if there is one up to \<open>num_iter\<close>.\<close>

lemma first_converged:
  assumes "j \<le> num_iter" "converged air j"
  shows "\<exists>m. m \<le> num_iter \<and> converged air m \<and> (\<forall>i<m. \<not> converged air i)"
proof -
  define m where "m = (LEAST i. converged air i)"
  have c: "converged air m" unfolding m_def using assms(2) by (rule LeastI)
  have "m \<le> j" unfolding m_def using assms(2) by (rule Least_le)
  then have le: "m \<le> num_iter" using assms(1) by (rule le_trans)
  have "\<not> converged air i" if "i < m" for i
    using that unfolding m_def by (rule not_less_Least)
  with c le show ?thesis by blast
qed

lemma first_converged_unique:
  assumes "converged air m" "\<forall>i<m. \<not> converged air i"
    and "converged air m'" "\<forall>i<m'. \<not> converged air i"
  shows "m = m'"
proof (rule ccontr)
  assume "m \<noteq> m'"
  then have "m < m' \<or> m' < m" by linarith
  then show False
  proof
    assume "m < m'"
    with assms(4) have "\<not> converged air m" by blast
    with assms(1) show False by simp
  next
    assume "m' < m"
    with assms(2) have "\<not> converged air m'" by blast
    with assms(3) show False by simp
  qed
qed

lemma air2vac_element_converges:
  assumes "m \<le> num_iter" "converged air m" "\<forall>i<m. \<not> converged air i"
  shows "air2vac_element air = Inr (iterate air m)"
proof -
  have "air2vac_loop air (previous air 0) (iterate air 0) 0 = Inr (iterate air m, previous air m, m)"
    using assms by (intro air2vac_loop_converges) simp_all
  then show ?thesis
    by (simp add: air2vac_element_def previous_def)
qed

lemma air2vac_element_raises:
  assumes "\<forall>j \<le> num_iter. \<not> converged air j"
  shows "air2vac_element air = Inl RuntimeError"
proof -
  have "air2vac_loop air (previous air 0) (iterate air 0) 0 = Inl RuntimeError"
    using assms by (intro air2vac_loop_raises) simp_all
  then show ?thesis
    by (simp add: air2vac_element_def previous_def)
qed

lemma air2vac_element_Inl:
  "air2vac_element air = Inl e \<longleftrightarrow> e = RuntimeError \<and> (\<forall>j \<le> num_iter. \<not> converged air j)"
proof (cases "\<exists>j \<le> num_iter. converged air j")
  case True
  then obtain j where "j \<le> num_iter" "converged air j" by blast
  from first_converged [OF this] obtain m where
    "m \<le> num_iter" "converged air m" "\<forall>i<m. \<not> converged air i" by blast
  from air2vac_element_converges [OF this] True show ?thesis by simp
next
  case False
  then have "\<forall>j \<le> num_iter. \<not> converged air j" by blast
  from air2vac_element_raises [OF this] this show ?thesis by auto
qed

lemma air2vac_element_Inr:
  "air2vac_element air = Inr v \<longleftrightarrow>
     (\<exists>m \<le> num_iter. converged air m \<and> (\<forall>i<m. \<not> converged air i) \<and> v = iterate air m)"
proof
  assume r: "air2vac_element air = Inr v"
  have "\<exists>j \<le> num_iter. converged air j"
  proof (rule ccontr)
    assume "\<not> (\<exists>j \<le> num_iter. converged air j)"
    then have "\<forall>j \<le> num_iter. \<not> converged air j" by blast
    from air2vac_element_raises [OF this] r show False by simp
  qed
  then obtain j where "j \<le> num_iter" "converged air j" by blast
  from first_converged [OF this] obtain m where
    m: "m \<le> num_iter" "converged air m" "\<forall>i<m. \<not> converged air i" by blast
  from air2vac_element_converges [OF m] r have "v = iterate air m" by simp
  with m show "\<exists>m \<le> num_iter. converged air m \<and> (\<forall>i<m. \<not> converged air i) \<and> v = iterate air m"
    by blast
next
  assume "\<exists>m \<le> num_iter. converged air m \<and> (\<forall>i<m. \<not> converged air i) \<and> v = iterate air m"
  then obtain m where m: "m \<le> num_iter" "converged air m" "\<forall>i<m. \<not> converged air i"
    and v: "v = iterate air m" by blast
  from air2vac_element_converges [OF m] v show "air2vac_element air = Inr v" by simp
qed

lemma air2vac_list_Inl:
  "air2vac_list xs acc = Inl e \<longleftrightarrow>
     e = RuntimeError \<and> (\<exists>x \<in> set xs. air2vac_element x = Inl RuntimeError)"
proof (induction xs arbitrary: acc)
  case Nil
  show ?case by simp
next
  case (Cons x xs)
  show ?case
  proof (cases "air2vac_element x")
    case (Inl e')
    then have "e' = RuntimeError" by (simp add: air2vac_element_Inl)
    with Inl show ?thesis by auto
  next
    case (Inr v)
    then show ?thesis by (simp add: Cons.IH)
  qed
qed

lemma air2vac_list_Inr:
  "air2vac_list xs acc = Inr ys \<longleftrightarrow>
     (\<exists>vs. ys = acc @ vs \<and> list_all2 (\<lambda>x v. air2vac_element x = Inr v) xs vs)"
proof (induction xs arbitrary: acc)
  case Nil
  show ?case by auto
next
  case (Cons x xs)
  show ?case
  proof (cases "air2vac_element x")
    case (Inl e')
    then show ?thesis by (simp add: list_all2_Cons1)
  next
    case (Inr v)
    have "air2vac_list (x # xs) acc = Inr ys \<longleftrightarrow>
            (\<exists>vs. ys = (acc @ [v]) @ vs \<and> list_all2 (\<lambda>x v. air2vac_element x = Inr v) xs vs)"
      using Inr by (simp add: Cons.IH)
    also have "\<dots> \<longleftrightarrow> (\<exists>vs. ys = acc @ (v # vs) \<and> list_all2 (\<lambda>x v. air2vac_element x = Inr v) xs vs)"
      by simp
    also have "\<dots> \<longleftrightarrow> (\<exists>vs'. ys = acc @ vs' \<and> list_all2 (\<lambda>x v. air2vac_element x = Inr v) (x # xs) vs')"
      by (auto simp: list_all2_Cons1 Inr)
    finally show ?thesis .
  qed
qed

subsection \<open>Arrays and units\<close>

lemma convert_length_roundtrip:
  "convert_length un Angstrom (convert_length Angstrom un v) = v"
  by (cases un) (simp_all add: convert_length_def)

lemma length_flatten: "length (flatten g) = nrows g * ncols g"
  by (simp add: flatten_def length_concat comp_def sum_list_triv)

lemma take_drop_nth_map:
  assumes "n + m \<le> length xs"
  shows "map (\<lambda>c. xs ! (n + c)) [0..<m] = take m (drop n xs)"
  using assms by (intro nth_equalityI) auto

lemma concat_rows_take:
  assumes "R * C \<le> length xs"
  shows "concat (map (\<lambda>r. map (\<lambda>c. xs ! (r * C + c)) [0..<C]) [0..<R]) = take (R * C) xs"
  using assms
proof (induction R)
  case 0
  show ?case by simp
next
  case (Suc R)
  then have le: "R * C + C \<le> length xs" by (simp add: add.commute)
  then have IH: "concat (map (\<lambda>r. map (\<lambda>c. xs ! (r * C + c)) [0..<C]) [0..<R]) = take (R * C) xs"
    using Suc.IH by simp
  have "take (Suc R * C) xs = take (R * C + C) xs" by (simp add: add.commute)
  also have "\<dots> = take (R * C) xs @ take C (drop (R * C) xs)" by (simp add: take_add)
  also have "take C (drop (R * C) xs) = map (\<lambda>c. xs ! (R * C + c)) [0..<C]"
    using take_drop_nth_map [OF le] by simp
  finally show ?case using IH by simp
qed

lemma flatten_reshape:
  assumes "length xs = R * C"
  shows "flatten (reshape xs (R, C)) = xs"
  using concat_rows_take [of R C xs] assms by (simp add: flatten_def reshape_def)

lemma angstrom_values_result:
  assumes "length vs = length (flat_values nd)"
  shows "angstrom_values
           \<lparr>ndview = (case nd of A1 xs \<Rightarrow> A1 (map (convert_length Angstrom un) vs)
                              | A2 g \<Rightarrow> A2 (reshape (map (convert_length Angstrom un) vs) (nrows g, ncols g))),
            units = un\<rparr> = vs"
proof (cases nd)
  case (A1 xs)
  then show ?thesis
    by (simp add: angstrom_values_def flat_values_def comp_def convert_length_roundtrip)
next
  case (A2 g)
  with assms have "length (map (convert_length Angstrom un) vs) = nrows g * ncols g"
    by (simp add: flat_values_def length_flatten)
  from flatten_reshape [OF this] A2 show ?thesis
    by (simp add: angstrom_values_def flat_values_def comp_def convert_length_roundtrip)
qed

lemma shape_result:
  assumes "length vs = length (flat_values nd)"
  shows "shape (case nd of A1 xs \<Rightarrow> A1 (map f vs) | A2 g \<Rightarrow> A2 (reshape (map f vs) (nrows g, ncols g)))
           = shape nd"
  using assms by (cases nd) (simp_all add: shape_def flat_values_def reshape_def)

lemma air2vac_list_nil:
  "air2vac_list xs [] = Inr vs \<longleftrightarrow> list_all2 (\<lambda>x v. air2vac_element x = Inr v) xs vs"
  by (simp add: air2vac_list_Inr)

lemma air2vacESO_Inr:
  "air2vacESO a = Inr r \<longleftrightarrow>
     (\<exists>vs. list_all2 (\<lambda>x v. air2vac_element x = Inr v) (angstrom_values a) vs
        \<and> r = \<lparr>ndview = (case ndview a of
                           A1 xs \<Rightarrow> A1 (map (convert_length Angstrom (units a)) vs)
                         | A2 g \<Rightarrow> A2 (reshape (map (convert_length Angstrom (units a)) vs)
                                      (nrows g, ncols g))),
                units = units a\<rparr>)"
  by (cases "air2vac_list (angstrom_values a) []")
     (auto simp: air2vacESO_def Let_def air2vac_list_nil [symmetric])

lemma air2vacESO_Inl:
  "air2vacESO a = Inl e \<longleftrightarrow>
     e = RuntimeError \<and> (\<exists>x \<in> set (angstrom_values a). air2vac_element x = Inl RuntimeError)"
proof (cases "air2vac_list (angstrom_values a) []")
  case (Inl e')
  then have "e' = RuntimeError" "\<exists>x \<in> set (angstrom_values a). air2vac_element x = Inl RuntimeError"
    by (simp_all add: air2vac_list_Inl)
  with Inl show ?thesis
    by (auto simp: air2vacESO_def Let_def)
next
  case (Inr vs)
  have "\<not> (\<exists>x \<in> set (angstrom_values a). air2vac_element x = Inl RuntimeError)"
  proof
    assume "\<exists>x \<in> set (angstrom_values a). air2vac_element x = Inl RuntimeError"
    then have "air2vac_list (angstrom_values a) [] = Inl RuntimeError"
      by (simp add: air2vac_list_Inl)
    with Inr show False by simp
  qed
  with Inr show ?thesis
    by (auto simp: air2vacESO_def Let_def)
qed

text \<open>
  C6. \<^verbatim>\<open>air2vacESO\<close> raises \<^verbatim>\<open>RuntimeError\<close> exactly when, for some element, the loop condition is
  still true after each of the passes 0 to 100, so that the body runs a 101st time and finds
  \<^verbatim>\<open>iterations > num_iter\<close>. It raises nothing else, and when every element reaches a pass up to
  the 100th after which the condition is false, it returns an array.
\<close>

theorem air2vacESO_raises_iff_not_converged:
  "(air2vacESO a = Inl RuntimeError \<longleftrightarrow>
      (\<exists>air \<in> set (angstrom_values a). \<forall>j \<le> num_iter. \<not> converged air j))
   \<and> (\<forall>e. air2vacESO a = Inl e \<longrightarrow> e = RuntimeError)
   \<and> ((\<forall>air \<in> set (angstrom_values a). \<exists>j \<le> num_iter. converged air j) \<longrightarrow>
        (\<exists>r. air2vacESO a = Inr r))"
proof (intro conjI allI impI)
  show "air2vacESO a = Inl RuntimeError \<longleftrightarrow>
      (\<exists>air \<in> set (angstrom_values a). \<forall>j \<le> num_iter. \<not> converged air j)"
    by (simp add: air2vacESO_Inl air2vac_element_Inl)
next
  fix e assume "air2vacESO a = Inl e"
  then show "e = RuntimeError" by (simp add: air2vacESO_Inl)
next
  assume all: "\<forall>air \<in> set (angstrom_values a). \<exists>j \<le> num_iter. converged air j"
  show "\<exists>r. air2vacESO a = Inr r"
  proof (cases "air2vacESO a")
    case (Inl e)
    then obtain x where "x \<in> set (angstrom_values a)" "air2vac_element x = Inl RuntimeError"
      by (auto simp: air2vacESO_Inl)
    then have "x \<in> set (angstrom_values a)" "\<forall>j \<le> num_iter. \<not> converged x j"
      by (simp_all add: air2vac_element_Inl)
    with all show ?thesis by blast
  next
    case (Inr r)
    then show ?thesis by blast
  qed
qed

text \<open>
  C1 (as amended). A returned array has the shape and the units of the input. Each of its
  elements, in Angstroms, is \<open>iterate air k\<close> for the first pass \<open>k\<close> after which the loop
  condition is false. For an air wavelength whose absolute value exceeds the tolerance the
  loop body runs at least once, so \<open>k\<close> is positive, the element is \<open>air\<close> times the index of
  refraction at the previous iterate, and it differs from the previous iterate by at most the
  tolerance, while all earlier successive iterates differ by more. For an air wavelength
  within the tolerance of zero the loop body never runs and the element is the air wavelength
  itself.
\<close>

theorem air2vacESO_fixed_point:
  assumes "air2vacESO a = Inr r"
  shows "shape (ndview r) = shape (ndview a) \<and> units r = units a
       \<and> length (angstrom_values r) = length (angstrom_values a)
       \<and> (\<forall>i < length (angstrom_values a).
            (tolerance < \<bar>angstrom_values a ! i\<bar> \<longrightarrow>
               (\<exists>k. 0 < k \<and> k \<le> num_iter
                  \<and> angstrom_values r ! i = iterate (angstrom_values a ! i) k
                  \<and> angstrom_values r ! i =
                      angstrom_values a ! i * air_index (iterate (angstrom_values a ! i) (k - 1))
                  \<and> \<bar>iterate (angstrom_values a ! i) (k - 1) - angstrom_values r ! i\<bar> \<le> tolerance
                  \<and> (\<forall>j. 0 < j \<and> j < k \<longrightarrow>
                        tolerance < \<bar>iterate (angstrom_values a ! i) (j - 1)
                                      - iterate (angstrom_values a ! i) j\<bar>)))
          \<and> (\<bar>angstrom_values a ! i\<bar> \<le> tolerance \<longrightarrow>
               angstrom_values r ! i = angstrom_values a ! i))"
proof -
  from assms obtain vs where
    all2: "list_all2 (\<lambda>x v. air2vac_element x = Inr v) (angstrom_values a) vs" and
    r: "r = \<lparr>ndview = (case ndview a of
                           A1 xs \<Rightarrow> A1 (map (convert_length Angstrom (units a)) vs)
                         | A2 g \<Rightarrow> A2 (reshape (map (convert_length Angstrom (units a)) vs)
                                      (nrows g, ncols g))),
                units = units a\<rparr>"
    unfolding air2vacESO_Inr by blast
  have len: "length vs = length (flat_values (ndview a))"
    using list_all2_lengthD [OF all2] by (simp add: angstrom_values_def)
  have vals: "angstrom_values r = vs"
    unfolding r by (rule angstrom_values_result [OF len])
  have shp: "shape (ndview r) = shape (ndview a)"
    unfolding r using shape_result [OF len] by simp
  have un: "units r = units a" by (simp add: r)
  have lens: "length (angstrom_values r) = length (angstrom_values a)"
    using vals len by (simp add: angstrom_values_def)
  have elem: "(tolerance < \<bar>air\<bar> \<longrightarrow>
               (\<exists>k. 0 < k \<and> k \<le> num_iter
                  \<and> v = iterate air k
                  \<and> v = air * air_index (iterate air (k - 1))
                  \<and> \<bar>iterate air (k - 1) - v\<bar> \<le> tolerance
                  \<and> (\<forall>j. 0 < j \<and> j < k \<longrightarrow> tolerance < \<bar>iterate air (j - 1) - iterate air j\<bar>)))
          \<and> (\<bar>air\<bar> \<le> tolerance \<longrightarrow> v = air)"
    if "air2vac_element air = Inr v" for air v
  proof -
    from that obtain m where m: "m \<le> num_iter" "converged air m" "\<forall>i<m. \<not> converged air i"
      and v: "v = iterate air m"
      unfolding air2vac_element_Inr by blast
    have c0: "converged air 0 \<longleftrightarrow> \<bar>air\<bar> \<le> tolerance"
      by (simp add: converged_def previous_def not_less)
    have cS: "converged air (Suc j) \<longleftrightarrow> \<bar>iterate air j - iterate air (Suc j)\<bar> \<le> tolerance" for j
      by (simp add: converged_def previous_def not_less)
    have small: "v = air" if "\<bar>air\<bar> \<le> tolerance"
    proof -
      from that have "converged air 0" by (simp add: c0)
      with m(3) have "m = 0" by (cases m) auto
      with v show ?thesis by simp
    qed
    have big: "\<exists>k. 0 < k \<and> k \<le> num_iter
                  \<and> v = iterate air k
                  \<and> v = air * air_index (iterate air (k - 1))
                  \<and> \<bar>iterate air (k - 1) - v\<bar> \<le> tolerance
                  \<and> (\<forall>j. 0 < j \<and> j < k \<longrightarrow> tolerance < \<bar>iterate air (j - 1) - iterate air j\<bar>)"
      if "tolerance < \<bar>air\<bar>"
    proof -
      from that have "\<not> converged air 0" by (simp add: c0)
      with m(2) obtain n where n: "m = Suc n" by (cases m) auto
      have "\<bar>iterate air n - v\<bar> \<le> tolerance"
        using m(2) cS [of n] by (simp add: n v)
      moreover have "tolerance < \<bar>iterate air (j - 1) - iterate air j\<bar>" if "0 < j" "j < m" for j
      proof -
        from that obtain j' where j': "j = Suc j'" by (cases j) auto
        from that m(3) have "\<not> converged air j" by blast
        then show ?thesis using cS [of j'] by (simp add: j')
      qed
      ultimately show ?thesis
        using m(1) v n by (intro exI [of _ m]) simp
    qed
    from small big show ?thesis by blast
  qed
  have "\<And>i. i < length (angstrom_values a) \<Longrightarrow>
          air2vac_element (angstrom_values a ! i) = Inr (angstrom_values r ! i)"
    using all2 vals by (simp add: list_all2_conv_all_nth)
  with elem shp un lens show ?thesis by blast
qed

subsection \<open>The index of refraction on the wavelengths of HARPS\<close>

lemma air_index_eq:
  "air_index l =
     950587347 / 950587862431250
       * (64.328 + 29498.1 / (146 - (10 ^ 4 / l) ^ 2) + 255.4 / (41 - (10 ^ 4 / l) ^ 2)) + 1"
  by (simp add: air_indexEdlen53_def)

lemma wavenumber_sq_bounds:
  fixes l :: real
  assumes "3700 \<le> l" "l \<le> 7000"
  shows "2 \<le> (10 ^ 4 / l) ^ 2 \<and> (10 ^ 4 / l) ^ 2 \<le> 8"
proof -
  have lo: "3700 ^ 2 \<le> l ^ 2" using assms by (intro power_mono) auto
  have hi: "l ^ 2 \<le> 7000 ^ 2" using assms by (intro power_mono) auto
  have pos: "0 < l ^ 2" using assms by simp
  have eq: "(10 ^ 4 / l) ^ 2 = 10 ^ 8 / l ^ 2" by (simp add: power_divide)
  have "2 * l ^ 2 \<le> 10 ^ 8" using hi by simp
  then have a: "2 \<le> 10 ^ 8 / l ^ 2" using pos by (simp add: pos_le_divide_eq)
  have "10 ^ 8 \<le> 8 * l ^ 2" using lo by simp
  then have b: "10 ^ 8 / l ^ 2 \<le> 8" using pos by (simp add: pos_divide_le_eq)
  from a b eq show ?thesis by simp
qed

lemma wavenumber_sq_lipschitz:
  fixes a b :: real
  assumes a: "3700 \<le> a" "a \<le> 7000" and b: "3700 \<le> b" "b \<le> 7000"
  shows "\<bar>(10 ^ 4 / a) ^ 2 - (10 ^ 4 / b) ^ 2\<bar> \<le> \<bar>a - b\<bar> / 100"
proof -
  have a0: "a \<noteq> 0" and b0: "b \<noteq> 0" using a b by auto
  have eq: "(10 ^ 4 / a) ^ 2 - (10 ^ 4 / b) ^ 2 = 10 ^ 8 * ((b - a) * (b + a)) / (a ^ 2 * b ^ 2)"
    using a0 b0 by (simp add: power_divide field_simps power2_eq_square)
  have den: "3700 ^ 2 * 3700 ^ 2 \<le> a ^ 2 * b ^ 2"
    using a b by (intro mult_mono power_mono) auto
  have denpos: "0 < a ^ 2 * b ^ 2" using a0 b0 by simp
  have num: "\<bar>(b - a) * (b + a)\<bar> \<le> \<bar>a - b\<bar> * 14000"
  proof -
    have "\<bar>(b - a) * (b + a)\<bar> = \<bar>a - b\<bar> * (b + a)"
      using a b by (simp add: abs_mult abs_minus_commute)
    also have "\<dots> \<le> \<bar>a - b\<bar> * 14000"
      using a b by (intro mult_left_mono) auto
    finally show ?thesis .
  qed
  have "\<bar>(10 ^ 4 / a) ^ 2 - (10 ^ 4 / b) ^ 2\<bar> = 10 ^ 8 * \<bar>(b - a) * (b + a)\<bar> / (a ^ 2 * b ^ 2)"
    unfolding eq using denpos by (simp add: abs_mult)
  also have "\<dots> \<le> 10 ^ 8 * (\<bar>a - b\<bar> * 14000) / (3700 ^ 2 * 3700 ^ 2)"
    using num den by (intro frac_le mult_left_mono) auto
  also have "\<dots> \<le> \<bar>a - b\<bar> / 100"
    by simp
  finally show ?thesis .
qed

lemma reciprocal_lipschitz:
  fixes x y c :: real
  assumes "x \<le> 8" "y \<le> 8" "8 < c"
  shows "\<bar>1 / (c - x) - 1 / (c - y)\<bar> \<le> \<bar>x - y\<bar> / (c - 8) ^ 2"
proof -
  have px: "0 < c - x" and py: "0 < c - y" using assms by auto
  have eq: "1 / (c - x) - 1 / (c - y) = (x - y) / ((c - x) * (c - y))"
    using px py by (simp add: field_simps)
  have den: "(c - 8) * (c - 8) \<le> (c - x) * (c - y)"
    using assms by (intro mult_mono) auto
  have "\<bar>1 / (c - x) - 1 / (c - y)\<bar> = \<bar>x - y\<bar> / ((c - x) * (c - y))"
    unfolding eq using px py by (simp add: abs_mult)
  also have "\<dots> \<le> \<bar>x - y\<bar> / ((c - 8) * (c - 8))"
    using den assms by (intro frac_le) auto
  finally show ?thesis by (simp add: power2_eq_square)
qed

lemma abs_combination:
  fixes p q x y :: real
  assumes "0 \<le> p" "0 \<le> q"
  shows "\<bar>p * x + q * y\<bar> \<le> p * \<bar>x\<bar> + q * \<bar>y\<bar>"
proof -
  have "\<bar>p * x + q * y\<bar> \<le> \<bar>p * x\<bar> + \<bar>q * y\<bar>" by (rule abs_triangle_ineq)
  also have "\<dots> = p * \<bar>x\<bar> + q * \<bar>y\<bar>" using assms by (simp add: abs_mult)
  finally show ?thesis .
qed

lemma air_index_bounds:
  fixes l :: real
  assumes "3700 \<le> l" "l \<le> 7000"
  shows "1 < air_index l \<and> air_index l \<le> 1 + 3 / 10 ^ 4"
proof -
  define u where "u = (10 ^ 4 / l) ^ 2"
  have u: "2 \<le> u" "u \<le> 8"
    using wavenumber_sq_bounds [OF assms] by (simp_all add: u_def)
  define t1 where "t1 = 29498.1 / (146 - u)"
  define t2 where "t2 = 255.4 / (41 - u)"
  have t1: "0 < t1" "t1 \<le> 214"
    using u by (simp_all add: t1_def pos_divide_le_eq)
  have t2: "0 < t2" "t2 \<le> 8"
    using u by (simp_all add: t2_def pos_divide_le_eq)
  define G where "G = 64.328 + t1 + t2"
  have G: "0 < G" "G \<le> 287" using t1 t2 by (simp_all add: G_def)
  have n: "air_index l = 950587347 / 950587862431250 * G + 1"
    unfolding G_def t1_def t2_def u_def by (rule air_index_eq)
  have "950587347 / 950587862431250 * G \<le> 950587347 / 950587862431250 * 287"
    using G by (intro mult_left_mono) auto
  also have "\<dots> \<le> 3 / 10 ^ 4" by simp
  finally have up: "950587347 / 950587862431250 * G \<le> 3 / 10 ^ 4" .
  have "0 < 950587347 / 950587862431250 * G" using G by simp
  with up n show ?thesis by simp
qed

lemma air_index_lipschitz:
  fixes a b :: real
  assumes a: "3700 \<le> a" "a \<le> 7000" and b: "3700 \<le> b" "b \<le> 7000"
  shows "\<bar>air_index a - air_index b\<bar> \<le> \<bar>a - b\<bar> * (2 / 10 ^ 8)"
proof -
  define ua where "ua = (10 ^ 4 / a) ^ 2"
  define ub where "ub = (10 ^ 4 / b) ^ 2"
  have ua: "ua \<le> 8" using wavenumber_sq_bounds [OF a] by (simp add: ua_def)
  have ub: "ub \<le> 8" using wavenumber_sq_bounds [OF b] by (simp add: ub_def)
  have du: "\<bar>ua - ub\<bar> \<le> \<bar>a - b\<bar> / 100"
    unfolding ua_def ub_def by (rule wavenumber_sq_lipschitz [OF a b])
  define r1 where "r1 = 1 / (146 - ua) - 1 / (146 - ub)"
  define r2 where "r2 = 1 / (41 - ua) - 1 / (41 - ub)"
  define d where "d = \<bar>ua - ub\<bar>"
  have d0: "0 \<le> d" by (simp add: d_def)
  have "\<bar>r1\<bar> \<le> d / (146 - 8) ^ 2"
    unfolding r1_def d_def using ua ub by (intro reciprocal_lipschitz) auto
  then have r1: "\<bar>r1\<bar> \<le> d / 19044" by simp
  have "\<bar>r2\<bar> \<le> d / (41 - 8) ^ 2"
    unfolding r2_def d_def using ua ub by (intro reciprocal_lipschitz) auto
  then have r2: "\<bar>r2\<bar> \<le> d / 1089" by simp
  define X where "X = 29498.1 * r1 + 255.4 * r2"
  have diff: "air_index a - air_index b = 950587347 / 950587862431250 * X"
    unfolding air_index_eq [of a] air_index_eq [of b] ua_def ub_def r1_def r2_def X_def
    by (simp add: algebra_simps)
  have "\<bar>X\<bar> \<le> 29498.1 * \<bar>r1\<bar> + 255.4 * \<bar>r2\<bar>"
    unfolding X_def by (rule abs_combination) simp_all
  also have "\<dots> \<le> 29498.1 * (d / 19044) + 255.4 * (d / 1089)"
    using r1 r2 by (intro add_mono mult_left_mono) simp_all
  also have "\<dots> = d * (29498.1 / 19044 + 255.4 / 1089)"
    by (simp add: algebra_simps)
  also have "\<dots> \<le> d * 2"
    using d0 by (intro mult_left_mono) simp_all
  also have "\<dots> \<le> (\<bar>a - b\<bar> / 100) * 2"
    using du by (simp add: d_def)
  finally have inner: "\<bar>X\<bar> \<le> (\<bar>a - b\<bar> / 100) * 2" .
  have "\<bar>air_index a - air_index b\<bar> = 950587347 / 950587862431250 * \<bar>X\<bar>"
    unfolding diff by (simp add: abs_mult)
  also have "\<dots> \<le> 950587347 / 950587862431250 * ((\<bar>a - b\<bar> / 100) * 2)"
    using inner by (intro mult_left_mono) simp_all
  also have "\<dots> \<le> \<bar>a - b\<bar> * (2 / 10 ^ 8)"
    by simp
  finally show ?thesis .
qed

subsection \<open>Convergence of the iteration on the wavelengths of HARPS\<close>

lemma iterate_in_range:
  assumes "harps_range air"
  shows "air \<le> iterate air k \<and> iterate air k \<le> air * (1 + 3 / 10 ^ 4)"
proof -
  have air: "3780 \<le> air" "air \<le> 6910" using assms by (simp_all add: harps_range_def)
  show ?thesis
  proof (cases k)
    case 0
    with air show ?thesis by (simp add: algebra_simps)
  next
    case (Suc j)
    have "3700 \<le> iterate air j \<and> iterate air j \<le> 7000"
    proof (induction j)
      case 0
      with air show ?case by simp
    next
      case (Suc i)
      then have n: "1 < air_index (iterate air i)" "air_index (iterate air i) \<le> 1 + 3 / 10 ^ 4"
        using air_index_bounds [of "iterate air i"] by simp_all
      define x where "x = air * air_index (iterate air i)"
      have "air * 1 \<le> air * air_index (iterate air i)"
        using n air by (intro mult_left_mono) simp_all
      then have lo: "air \<le> x" by (simp add: x_def)
      have "air * air_index (iterate air i) \<le> air * (1 + 3 / 10 ^ 4)"
        using n air by (intro mult_left_mono) simp_all
      also have "air * (1 + 3 / 10 ^ 4) \<le> 6910 * (1 + 3 / 10 ^ 4)"
        using air by (intro mult_right_mono) simp_all
      finally have hi: "x \<le> 6910 * (1 + 3 / 10 ^ 4)" by (simp add: x_def)
      from lo hi air have "3700 \<le> x \<and> x \<le> 7000" by simp
      then show ?case by (simp add: x_def)
    qed
    then have n: "1 < air_index (iterate air j)" "air_index (iterate air j) \<le> 1 + 3 / 10 ^ 4"
      using air_index_bounds [of "iterate air j"] by simp_all
    have "air * 1 \<le> air * air_index (iterate air j)"
      using n air by (intro mult_left_mono) simp_all
    moreover have "air * air_index (iterate air j) \<le> air * (1 + 3 / 10 ^ 4)"
      using n air by (intro mult_left_mono) simp_all
    ultimately show ?thesis by (simp add: Suc)
  qed
qed

lemma iterate_in_domain:
  assumes "harps_range air"
  shows "3700 \<le> iterate air k" "iterate air k \<le> 7000"
proof -
  have air: "3780 \<le> air" "air \<le> 6910" using assms by (simp_all add: harps_range_def)
  have "air * (1 + 3 / 10 ^ 4) \<le> 6910 * (1 + 3 / 10 ^ 4)"
    using air by (intro mult_right_mono) simp_all
  with iterate_in_range [OF assms, of k] air
  show "3700 \<le> iterate air k" "iterate air k \<le> 7000" by simp_all
qed

lemma iterate_contracts:
  assumes "harps_range air"
  shows "\<bar>iterate air (Suc k) - iterate air (Suc (Suc k))\<bar>
           \<le> \<bar>iterate air k - iterate air (Suc k)\<bar> / 5000"
proof -
  have air: "3780 \<le> air" "air \<le> 6910" using assms by (simp_all add: harps_range_def)
  define d where "d = \<bar>iterate air k - iterate air (Suc k)\<bar>"
  have d0: "0 \<le> d" by (simp add: d_def)
  have lip: "\<bar>air_index (iterate air k) - air_index (iterate air (Suc k))\<bar> \<le> d * (2 / 10 ^ 8)"
    unfolding d_def
    by (intro air_index_lipschitz iterate_in_domain [OF assms])
  have "iterate air (Suc k) - iterate air (Suc (Suc k))
          = air * (air_index (iterate air k) - air_index (iterate air (Suc k)))"
    by (simp add: algebra_simps)
  then have "\<bar>iterate air (Suc k) - iterate air (Suc (Suc k))\<bar>
          = air * \<bar>air_index (iterate air k) - air_index (iterate air (Suc k))\<bar>"
    using air by (simp add: abs_mult)
  also have "\<dots> \<le> air * (d * (2 / 10 ^ 8))"
    using lip air by (intro mult_left_mono) simp_all
  also have "\<dots> \<le> 6910 * (d * (2 / 10 ^ 8))"
    using air d0 by (intro mult_right_mono) simp_all
  also have "\<dots> \<le> d / 5000"
    using d0 by simp
  finally show ?thesis by (simp add: d_def)
qed

lemma iterate_step_bound:
  assumes "harps_range air"
  shows "\<bar>iterate air k - iterate air (Suc k)\<bar> \<le> 3 / 5000 ^ k"
proof (induction k)
  case 0
  have air: "3780 \<le> air" "air \<le> 6910" using assms by (simp_all add: harps_range_def)
  have n: "1 < air_index air" "air_index air \<le> 1 + 3 / 10 ^ 4"
    using air_index_bounds [of air] air by simp_all
  have "\<bar>iterate air 0 - iterate air (Suc 0)\<bar> = air * (air_index air - 1)"
    using air n by (simp add: algebra_simps abs_if)
  also have "\<dots> \<le> 6910 * (3 / 10 ^ 4)"
    using air n by (intro mult_mono) simp_all
  also have "\<dots> \<le> 3" by simp
  finally show ?case by simp
next
  case (Suc k)
  have "\<bar>iterate air (Suc k) - iterate air (Suc (Suc k))\<bar>
           \<le> \<bar>iterate air k - iterate air (Suc k)\<bar> / 5000"
    by (rule iterate_contracts [OF assms])
  also have "\<dots> \<le> (3 / 5000 ^ k) / 5000"
    using Suc.IH by (intro divide_right_mono) simp_all
  finally show ?case by simp
qed

lemma harps_converged:
  assumes "harps_range air"
  shows "converged air 5"
proof -
  have "\<bar>iterate air 4 - iterate air (Suc 4)\<bar> \<le> 3 / 5000 ^ 4"
    by (rule iterate_step_bound [OF assms])
  also have "\<dots> \<le> tolerance" by (simp add: tolerance_def)
  finally have "\<bar>iterate air 4 - iterate air (Suc 4)\<bar> \<le> tolerance" .
  then have "converged air (Suc 4)"
    unfolding converged_def previous_def by (simp add: not_less)
  then show ?thesis by (simp add: eval_nat_numeral)
qed

text \<open>Back to air: the vacuum wavelength the loop returns gives the air wavelength again.\<close>

lemma harps_roundtrip_iterate:
  assumes "harps_range air" "\<bar>iterate air k - iterate air (Suc k)\<bar> \<le> tolerance"
  shows "\<bar>vac2airESO (iterate air (Suc k)) - air\<bar> \<le> tolerance"
proof -
  have air: "3780 \<le> air" "air \<le> 6910" using assms by (simp_all add: harps_range_def)
  define n0 where "n0 = air_index (iterate air k)"
  define n1 where "n1 = air_index (iterate air (Suc k))"
  have n1: "1 < n1"
    unfolding n1_def using air_index_bounds iterate_in_domain [OF assms(1)] by blast
  have lip: "\<bar>n0 - n1\<bar> \<le> \<bar>iterate air k - iterate air (Suc k)\<bar> * (2 / 10 ^ 8)"
    unfolding n0_def n1_def
    by (intro air_index_lipschitz iterate_in_domain [OF assms(1)])
  also have "\<dots> \<le> tolerance * (2 / 10 ^ 8)"
    using assms(2) by (intro mult_right_mono) simp_all
  finally have dn: "\<bar>n0 - n1\<bar> \<le> tolerance * (2 / 10 ^ 8)" .
  have "vac2airESO (iterate air (Suc k)) - air = air * n0 / n1 - air"
    by (simp add: vac2airESO_def n0_def n1_def)
  also have "\<dots> = air * (n0 - n1) / n1"
    using n1 by (simp add: field_simps)
  finally have "\<bar>vac2airESO (iterate air (Suc k)) - air\<bar> = air * \<bar>n0 - n1\<bar> / n1"
    using air n1 by (simp add: abs_mult)
  also have "\<dots> \<le> air * \<bar>n0 - n1\<bar> / 1"
    using air n1 by (intro divide_left_mono) simp_all
  also have "\<dots> = air * \<bar>n0 - n1\<bar>"
    by simp
  also have "\<dots> \<le> 6910 * (tolerance * (2 / 10 ^ 8))"
    using air dn by (intro mult_mono) simp_all
  also have "\<dots> \<le> tolerance"
    by (simp add: tolerance_def)
  finally show ?thesis .
qed

lemma harps_element:
  assumes "harps_range air"
  shows "\<exists>k. Suc k \<le> num_iter \<and> air2vac_element air = Inr (iterate air (Suc k))
             \<and> \<bar>iterate air k - iterate air (Suc k)\<bar> \<le> tolerance"
proof -
  have "5 \<le> num_iter" by (simp add: num_iter_def)
  from first_converged [OF this harps_converged [OF assms]] obtain m where
    m: "m \<le> num_iter" "converged air m" "\<forall>i<m. \<not> converged air i" by blast
  have "\<not> converged air 0"
    using assms by (simp add: converged_def previous_def harps_range_def tolerance_def)
  with m(2) obtain k where k: "m = Suc k" by (cases m) auto
  have "\<bar>iterate air k - iterate air (Suc k)\<bar> \<le> tolerance"
    using m(2) unfolding k converged_def previous_def by (simp add: not_less)
  moreover have "air2vac_element air = Inr (iterate air (Suc k))"
    using air2vac_element_converges [OF m] by (simp add: k)
  ultimately show ?thesis using m(1) k by blast
qed

lemma sample_air_array_in_range:
  "\<forall>l \<in> set (angstrom_values sample_air_array). harps_range l"
  by (simp add: sample_air_array_def angstrom_values_def flat_values_def convert_length_def
      harps_range_def)

lemma harps_array_returns:
  assumes "\<forall>l \<in> set (angstrom_values a). harps_range l"
  shows "\<exists>r. air2vacESO a = Inr r"
proof (cases "air2vacESO a")
  case (Inl e)
  then obtain x where x: "x \<in> set (angstrom_values a)" "air2vac_element x = Inl RuntimeError"
    by (auto simp: air2vacESO_Inl)
  then have "\<not> converged x 5"
    by (simp add: air2vac_element_Inl num_iter_def)
  moreover have "converged x 5" using x(1) assms by (intro harps_converged) simp
  ultimately show ?thesis by simp
next
  case (Inr r)
  then show ?thesis by blast
qed

theorem air2vacESO_raises_iff_not_converged_witness:
  "(\<exists>r. air2vacESO sample_air_array = Inr r)
   \<and> air2vacESO sample_air_array \<noteq> Inl RuntimeError"
proof -
  have conv: "\<forall>air \<in> set (angstrom_values sample_air_array). \<exists>j \<le> num_iter. converged air j"
  proof
    fix air assume "air \<in> set (angstrom_values sample_air_array)"
    with sample_air_array_in_range have "converged air 5"
      by (intro harps_converged) simp
    then show "\<exists>j \<le> num_iter. converged air j"
      by (intro exI [of _ 5]) (simp add: num_iter_def)
  qed
  from air2vacESO_raises_iff_not_converged [of sample_air_array] conv
  have "\<exists>r. air2vacESO sample_air_array = Inr r" by blast
  then show ?thesis by auto
qed

theorem air2vacESO_fixed_point_witness:
  "\<exists>r. air2vacESO sample_air_array = Inr r
       \<and> shape (ndview r) = [3] \<and> units r = Angstrom
       \<and> (\<exists>k. 0 < k \<and> k \<le> num_iter
              \<and> angstrom_values r ! 1 = 5000 * air_index (iterate 5000 (k - 1))
              \<and> \<bar>iterate 5000 (k - 1) - angstrom_values r ! 1\<bar> \<le> tolerance)"
proof -
  from harps_array_returns [OF sample_air_array_in_range]
  obtain r where r: "air2vacESO sample_air_array = Inr r" by blast
  have vals: "angstrom_values sample_air_array = [3800, 5000, 6900]"
    by (simp add: sample_air_array_def angstrom_values_def flat_values_def convert_length_def)
  have shp: "shape (ndview sample_air_array) = [3]" "units sample_air_array = Angstrom"
    by (simp_all add: sample_air_array_def shape_def)
  have at1: "angstrom_values sample_air_array ! 1 = 5000"
    by (simp add: vals)
  have one: "1 < length (angstrom_values sample_air_array)"
    by (simp add: vals)
  have big: "tolerance < \<bar>angstrom_values sample_air_array ! 1\<bar>"
    by (simp add: vals tolerance_def)
  from air2vacESO_fixed_point [OF r] one big obtain k where
    "0 < k" "k \<le> num_iter"
    "angstrom_values r ! 1 = angstrom_values sample_air_array ! 1
        * air_index (iterate (angstrom_values sample_air_array ! 1) (k - 1))"
    "\<bar>iterate (angstrom_values sample_air_array ! 1) (k - 1) - angstrom_values r ! 1\<bar> \<le> tolerance"
    by blast
  then have "\<exists>k. 0 < k \<and> k \<le> num_iter
              \<and> angstrom_values r ! 1 = 5000 * air_index (iterate 5000 (k - 1))
              \<and> \<bar>iterate 5000 (k - 1) - angstrom_values r ! 1\<bar> \<le> tolerance"
    unfolding at1 by blast
  moreover from air2vacESO_fixed_point [OF r]
  have "shape (ndview r) = [3]" "units r = Angstrom"
    unfolding shp by blast+
  ultimately show ?thesis using r by blast
qed

lemma air_index_near_zero:
  fixes v :: real
  assumes "\<bar>v\<bar> \<le> 1"
  shows "1 < air_index v"
proof -
  define u where "u = (10 ^ 4 / v) ^ 2"
  define t1 where "t1 = 29498.1 / (146 - u)"
  define t2 where "t2 = 255.4 / (41 - u)"
  have t: "- 1 \<le> t1 \<and> - 1 \<le> t2"
  proof (cases "v = 0")
    case True
    then have "u = 0" by (simp add: u_def)
    then show ?thesis by (simp add: t1_def t2_def)
  next
    case False
    have "v ^ 2 \<le> 1" using assms by (simp add: abs_square_le_1)
    moreover have "0 < v ^ 2" using False by simp
    ultimately have "10 ^ 8 \<le> 10 ^ 8 / v ^ 2"
      by (simp add: pos_le_divide_eq)
    then have u: "10 ^ 8 \<le> u" by (simp add: u_def power_divide)
    then have "146 - u < 0" "29498.1 \<le> - 1 * (146 - u)" by simp_all
    then have a: "- 1 \<le> t1" unfolding t1_def by (simp only: neg_le_divide_eq)
    from u have "41 - u < 0" "255.4 \<le> - 1 * (41 - u)" by simp_all
    then have b: "- 1 \<le> t2" unfolding t2_def by (simp only: neg_le_divide_eq)
    from a b show ?thesis by simp
  qed
  define G where "G = 64.328 + t1 + t2"
  have G: "0 < G" using t by (simp add: G_def)
  have "air_index v = 950587347 / 950587862431250 * G + 1"
    unfolding G_def t1_def t2_def u_def by (rule air_index_eq)
  with G show ?thesis by simp
qed

text \<open>
  C1 (as stated) fails for an air wavelength within the tolerance of zero: the first test of the
  loop compares it with the initial \<^verbatim>\<open>old_wavelength = 0.\<close>, the body never runs, and the
  wavelength is returned unchanged. It is not \<open>air\<close> times an index of refraction, which is
  greater than 1 at every wavelength near it (at 0 the model has \<open>10 ^ 4 / 0 = 0\<close>; the floats
  have an infinity there and the index is greater than 1 as well).
\<close>

theorem air2vacESO_tiny_wavelength:
  "air2vacESO tiny_air_array = Inr tiny_air_array
   \<and> \<not> (\<exists>v_prev. \<bar>v_prev - 1 / 10 ^ 12\<bar> \<le> tolerance
                  \<and> 1 / 10 ^ 12 = 1 / 10 ^ 12 * air_index v_prev)"
proof
  have "air2vac_loop (1 / 10 ^ 12) 0 (1 / 10 ^ 12) 0 = Inr (1 / 10 ^ 12, 0, 0)"
    by (subst air2vac_loop.simps) (simp add: tolerance_def)
  then have "air2vac_element (1 / 10 ^ 12) = Inr (1 / 10 ^ 12)"
    by (simp add: air2vac_element_def)
  then show "air2vacESO tiny_air_array = Inr tiny_air_array"
    by (simp add: air2vacESO_def tiny_air_array_def angstrom_values_def flat_values_def
        convert_length_def)
next
  show "\<not> (\<exists>v_prev. \<bar>v_prev - 1 / 10 ^ 12\<bar> \<le> tolerance
                  \<and> 1 / 10 ^ 12 = 1 / 10 ^ 12 * air_index v_prev)"
  proof
    assume "\<exists>v_prev. \<bar>v_prev - 1 / 10 ^ 12\<bar> \<le> tolerance
                  \<and> 1 / 10 ^ 12 = 1 / 10 ^ 12 * air_index v_prev"
    then obtain v :: real where v: "\<bar>v - 1 / 10 ^ 12\<bar> \<le> tolerance"
      and eq: "1 / 10 ^ 12 = 1 / 10 ^ 12 * air_index v" by blast
    define c :: real where "c = 1 / 10 ^ 12"
    have c: "0 \<le> c" "c \<le> 1 / 2" by (simp_all add: c_def)
    have tol: "tolerance \<le> 1 / 2" by (simp add: tolerance_def)
    from v have "\<bar>v - c\<bar> \<le> tolerance" by (simp add: c_def)
    with c tol have "\<bar>v\<bar> \<le> 1" by linarith
    then have "1 < air_index v" by (rule air_index_near_zero)
    moreover from eq have "air_index v = 1" by simp
    ultimately show False by simp
  qed
qed

section \<open>The round trip from air to vacuum and back\<close>

lemma vac2airESO_array_values:
  assumes len: "length vs = length (flat_values nd)"
    and r: "r = \<lparr>ndview = (case nd of A1 xs \<Rightarrow> A1 (map (convert_length Angstrom un) vs)
                              | A2 g \<Rightarrow> A2 (reshape (map (convert_length Angstrom un) vs) (nrows g, ncols g))),
                  units = un\<rparr>"
  shows "flat_values (ndview (vac2airESO_array r)) = map vac2airESO vs
       \<and> shape (ndview (vac2airESO_array r)) = shape nd
       \<and> units (vac2airESO_array r) = un"
proof -
  have vals: "angstrom_values r = vs"
    unfolding r by (rule angstrom_values_result [OF len])
  show ?thesis
  proof (cases nd)
    case (A1 xs)
    then have "ndview r = A1 (map (convert_length Angstrom un) vs)" by (simp add: r)
    then have "vac2airESO_array r = \<lparr>ndview = A1 (map vac2airESO vs), units = un\<rparr>"
      using vals by (simp add: vac2airESO_array_def r)
    with A1 len show ?thesis by (simp add: flat_values_def shape_def)
  next
    case (A2 g)
    then have "ndview r = A2 (reshape (map (convert_length Angstrom un) vs) (nrows g, ncols g))"
      by (simp add: r)
    then have v: "vac2airESO_array r =
        \<lparr>ndview = A2 (reshape (map vac2airESO vs) (nrows g, ncols g)), units = un\<rparr>"
      using vals by (simp add: vac2airESO_array_def r reshape_def)
    from A2 len have "length (map vac2airESO vs) = nrows g * ncols g"
      by (simp add: flat_values_def length_flatten)
    from flatten_reshape [OF this] v A2 show ?thesis
      by (simp add: flat_values_def shape_def reshape_def)
  qed
qed

lemma convert_length_same: "convert_length un un v = v"
  by (cases un) (simp_all add: convert_length_def)

lemma harps_roundtrip_array:
  assumes "units a = Angstrom" "\<forall>l \<in> set (flat_values (ndview a)). harps_range l"
  shows "\<exists>vac. air2vacESO a = Inr vac
         \<and> shape (ndview (vac2airESO_array vac)) = shape (ndview a)
         \<and> units (vac2airESO_array vac) = units a
         \<and> length (flat_values (ndview (vac2airESO_array vac))) = length (flat_values (ndview a))
         \<and> (\<forall>i < length (flat_values (ndview a)).
               \<bar>flat_values (ndview (vac2airESO_array vac)) ! i - flat_values (ndview a) ! i\<bar>
                 \<le> tolerance)"
proof -
  define xs where "xs = flat_values (ndview a)"
  have "convert_length Angstrom Angstrom = (\<lambda>v. v)"
    by (rule ext) (rule convert_length_same)
  then have av: "angstrom_values a = xs"
    by (simp add: angstrom_values_def assms(1) xs_def)
  define vs where "vs = map (\<lambda>air. iterate air (Suc (SOME k. Suc k \<le> num_iter
        \<and> air2vac_element air = Inr (iterate air (Suc k))
        \<and> \<bar>iterate air k - iterate air (Suc k)\<bar> \<le> tolerance))) xs"
  have each: "air2vac_element (xs ! i) = Inr (vs ! i) \<and> \<bar>vac2airESO (vs ! i) - xs ! i\<bar> \<le> tolerance"
    if "i < length xs" for i
  proof -
    from that assms(2) have h: "harps_range (xs ! i)" by (simp add: xs_def)
    define k where "k = (SOME k. Suc k \<le> num_iter
        \<and> air2vac_element (xs ! i) = Inr (iterate (xs ! i) (Suc k))
        \<and> \<bar>iterate (xs ! i) k - iterate (xs ! i) (Suc k)\<bar> \<le> tolerance)"
    have k: "Suc k \<le> num_iter
        \<and> air2vac_element (xs ! i) = Inr (iterate (xs ! i) (Suc k))
        \<and> \<bar>iterate (xs ! i) k - iterate (xs ! i) (Suc k)\<bar> \<le> tolerance"
      unfolding k_def by (rule someI_ex) (rule harps_element [OF h])
    have v: "vs ! i = iterate (xs ! i) (Suc k)"
      using that by (simp add: vs_def k_def)
    from k harps_roundtrip_iterate [OF h] show ?thesis by (simp add: v)
  qed
  have all2: "list_all2 (\<lambda>x v. air2vac_element x = Inr v) (angstrom_values a) vs"
    unfolding av using each by (simp add: list_all2_conv_all_nth vs_def)
  define vac where "vac = \<lparr>ndview = (case ndview a of
                           A1 xs \<Rightarrow> A1 (map (convert_length Angstrom (units a)) vs)
                         | A2 g \<Rightarrow> A2 (reshape (map (convert_length Angstrom (units a)) vs)
                                      (nrows g, ncols g))),
                units = units a\<rparr>"
  have res: "air2vacESO a = Inr vac"
    unfolding air2vacESO_Inr vac_def using all2 by blast
  have len: "length vs = length (flat_values (ndview a))"
    by (simp add: vs_def xs_def)
  from vac2airESO_array_values [OF len vac_def]
  have rt: "flat_values (ndview (vac2airESO_array vac)) = map vac2airESO vs"
    "shape (ndview (vac2airESO_array vac)) = shape (ndview a)"
    "units (vac2airESO_array vac) = units a" by simp_all
  have "\<bar>flat_values (ndview (vac2airESO_array vac)) ! i - flat_values (ndview a) ! i\<bar> \<le> tolerance"
    if "i < length (flat_values (ndview a))" for i
    using each [of i] that len by (simp add: rt xs_def)
  with res rt len show ?thesis by (intro exI [of _ vac]) simp
qed

lemma morton_value:
  "air2vacMortonIAU (vac2airMorton00 5000) - 5000 < - (1 / 10 ^ 9)
   \<and> - (2 / 10 ^ 9) < air2vacMortonIAU (vac2airMorton00 5000) - 5000"
  by (simp add: air2vacMortonIAU_def vac2airMorton00_def Let_def power_divide)

text \<open>
  C2 (as amended). In exact arithmetic, for every array in Angstroms whose wavelengths are in the
  range of HARPS, \<^verbatim>\<open>air2vacESO\<close> returns, and \<^verbatim>\<open>vac2airESO\<close> of its result has the shape and units
  of the input and gives each wavelength back within the tolerance \<open>2e-12\<close>. The formulas of
  Morton and of the IAU are two separate fits and are inverse to each other only approximately:
  at 5000 Angstroms \<^verbatim>\<open>air2vacMortonIAU\<close> after \<^verbatim>\<open>vac2airMorton00\<close> returns a wavelength that is
  between \<open>1e-9\<close> and \<open>2e-9\<close> Angstroms below the original.
\<close>

theorem air_vacuum_roundtrip:
  "(units a = Angstrom \<and> (\<forall>l \<in> set (flat_values (ndview a)). harps_range l) \<longrightarrow>
      (\<exists>vac. air2vacESO a = Inr vac
         \<and> shape (ndview (vac2airESO_array vac)) = shape (ndview a)
         \<and> units (vac2airESO_array vac) = units a
         \<and> length (flat_values (ndview (vac2airESO_array vac))) = length (flat_values (ndview a))
         \<and> (\<forall>i < length (flat_values (ndview a)).
               \<bar>flat_values (ndview (vac2airESO_array vac)) ! i - flat_values (ndview a) ! i\<bar>
                 \<le> tolerance)))
   \<and> air2vacMortonIAU (vac2airMorton00 5000) - 5000 < - (1 / 10 ^ 9)
   \<and> - (2 / 10 ^ 9) < air2vacMortonIAU (vac2airMorton00 5000) - 5000"
  using harps_roundtrip_array [of a] morton_value by blast


theorem air_vacuum_roundtrip_witness:
  "\<exists>vac. air2vacESO sample_air_array = Inr vac
       \<and> (\<forall>i < 3. \<bar>flat_values (ndview (vac2airESO_array vac)) ! i
                      - flat_values (ndview sample_air_array) ! i\<bar> \<le> tolerance)"
proof -
  have u: "units sample_air_array = Angstrom" by (simp add: sample_air_array_def)
  have r: "\<forall>l \<in> set (flat_values (ndview sample_air_array)). harps_range l"
    by (simp add: sample_air_array_def flat_values_def harps_range_def)
  have len: "length (flat_values (ndview sample_air_array)) = 3"
    by (simp add: sample_air_array_def flat_values_def)
  from air_vacuum_roundtrip [of sample_air_array] u r show ?thesis
    unfolding len by blast
qed

text \<open>
  C2 (as stated) fails for the pair of Morton and IAU: at 5000 Angstroms the round trip misses
  the original wavelength by more than the tolerance of \<^verbatim>\<open>air2vacESO\<close>, the only one the code
  states.
\<close>

theorem morton_roundtrip_5000:
  "harps_range 5000
   \<and> \<not> \<bar>air2vacMortonIAU (vac2airMorton00 5000) - 5000\<bar> \<le> tolerance"
  using morton_value by (simp add: harps_range_def tolerance_def abs_le_iff)

section \<open>Properties of \<^verbatim>\<open>HARPSFile2DScience\<close>\<close>

subsection \<open>\<^verbatim>\<open>getWavelengthArray\<close>\<close>

lemma pixel_loop_spec:
  assumes "order < nrows w" "\<forall>p \<in> set ps. p < ncols w" "distinct ps"
  shows "\<exists>w'. pixel_loop w order c i ps = Inr w'
           \<and> nrows w' = nrows w \<and> ncols w' = ncols w
           \<and> (\<forall>r p. cell w' r p =
                 cell w r p + (if r = order \<and> p \<in> set ps then c * real p ^ i else 0))"
  using assms
proof (induction ps arbitrary: w)
  case Nil
  show ?case by simp
next
  case (Cons q ps)
  define w1 where "w1 = w\<lparr>cell := (cell w)(order := (cell w order)(q := cell w order q + c * (real q ^ i)))\<rparr>"
  have w1: "nrows w1 = nrows w" "ncols w1 = ncols w" by (simp_all add: w1_def)
  have step: "pixel_loop w order c i (q # ps) = pixel_loop w1 order c i ps"
    using Cons.prems by (simp add: w1_def)
  have "\<exists>w'. pixel_loop w1 order c i ps = Inr w'
           \<and> nrows w' = nrows w1 \<and> ncols w' = ncols w1
           \<and> (\<forall>r p. cell w' r p =
                 cell w1 r p + (if r = order \<and> p \<in> set ps then c * real p ^ i else 0))"
    using Cons.prems w1 by (intro Cons.IH) simp_all
  then obtain w' where w': "pixel_loop w1 order c i ps = Inr w'"
    "nrows w' = nrows w1" "ncols w' = ncols w1"
    "\<And>r p. cell w' r p =
        cell w1 r p + (if r = order \<and> p \<in> set ps then c * real p ^ i else 0)"
    by blast
  have "cell w' r p = cell w r p + (if r = order \<and> p \<in> set (q # ps) then c * real p ^ i else 0)"
    for r p
    using Cons.prems(3) by (auto simp: w'(4) w1_def)
  with w' w1 step show ?case by simp
qed

lemma coeff_loop_spec:
  assumes "order < nrows w" "4096 \<le> ncols w"
    and "\<forall>i \<in> set is. hdr (coeff_key (4 * order + i)) \<noteq> None"
  shows "\<exists>w'. coeff_loop hdr w order is = Inr w'
           \<and> nrows w' = nrows w \<and> ncols w' = ncols w
           \<and> (\<forall>r p. cell w' r p =
                 cell w r p + (if r = order \<and> p < 4096
                   then (\<Sum>i\<leftarrow>is. the (hdr (coeff_key (4 * order + i))) * real p ^ i) else 0))"
  using assms
proof (induction "is" arbitrary: w)
  case Nil
  show ?case by simp
next
  case (Cons i "is")
  from Cons.prems obtain c where c: "hdr (coeff_key (4 * order + i)) = Some c" by auto
  have "\<exists>w1. pixel_loop w order c i [0..<4096] = Inr w1
           \<and> nrows w1 = nrows w \<and> ncols w1 = ncols w
           \<and> (\<forall>r p. cell w1 r p =
                 cell w r p + (if r = order \<and> p \<in> set [0..<4096] then c * real p ^ i else 0))"
    using Cons.prems by (intro pixel_loop_spec) auto
  then obtain w1 where w1: "pixel_loop w order c i [0..<4096] = Inr w1"
    "nrows w1 = nrows w" "ncols w1 = ncols w"
    "\<And>r p. cell w1 r p =
        cell w r p + (if r = order \<and> p \<in> set [0..<4096] then c * real p ^ i else 0)"
    by blast
  have "\<exists>w'. coeff_loop hdr w1 order is = Inr w'
           \<and> nrows w' = nrows w1 \<and> ncols w' = ncols w1
           \<and> (\<forall>r p. cell w' r p =
                 cell w1 r p + (if r = order \<and> p < 4096
                   then (\<Sum>i\<leftarrow>is. the (hdr (coeff_key (4 * order + i))) * real p ^ i) else 0))"
    using Cons.prems w1 by (intro Cons.IH) simp_all
  then obtain w' where w': "coeff_loop hdr w1 order is = Inr w'"
    "nrows w' = nrows w1" "ncols w' = ncols w1"
    "\<And>r p. cell w' r p =
        cell w1 r p + (if r = order \<and> p < 4096
           then (\<Sum>i\<leftarrow>is. the (hdr (coeff_key (4 * order + i))) * real p ^ i) else 0)"
    by blast
  have step: "coeff_loop hdr w order (i # is) = Inr w'"
    using c w1(1) w'(1) by simp
  have "cell w' r p = cell w r p + (if r = order \<and> p < 4096
           then (\<Sum>i\<leftarrow>i # is. the (hdr (coeff_key (4 * order + i))) * real p ^ i) else 0)"
    for r p
    by (simp add: w'(4) w1(4) c)
  with step w' w1 show ?case by simp
qed

lemma order_loop_spec:
  assumes "\<forall>order \<in> set os. order < nrows w" "4096 \<le> ncols w" "distinct os"
    and "\<forall>order \<in> set os. \<forall>i < 4. hdr (coeff_key (4 * order + i)) \<noteq> None"
  shows "\<exists>w'. order_loop hdr w os = Inr w'
           \<and> nrows w' = nrows w \<and> ncols w' = ncols w
           \<and> (\<forall>r p. cell w' r p =
                 cell w r p + (if r \<in> set os \<and> p < 4096
                   then (\<Sum>i\<leftarrow>[0..<4]. the (hdr (coeff_key (4 * r + i))) * real p ^ i) else 0))"
  using assms
proof (induction os arbitrary: w)
  case Nil
  show ?case by simp
next
  case (Cons order os)
  have "\<exists>w1. coeff_loop hdr w order [0..<4] = Inr w1
           \<and> nrows w1 = nrows w \<and> ncols w1 = ncols w
           \<and> (\<forall>r p. cell w1 r p =
                 cell w r p + (if r = order \<and> p < 4096
                   then (\<Sum>i\<leftarrow>[0..<4]. the (hdr (coeff_key (4 * order + i))) * real p ^ i) else 0))"
    using Cons.prems by (intro coeff_loop_spec) auto
  then obtain w1 where w1: "coeff_loop hdr w order [0..<4] = Inr w1"
    "nrows w1 = nrows w" "ncols w1 = ncols w"
    "\<And>r p. cell w1 r p =
        cell w r p + (if r = order \<and> p < 4096
           then (\<Sum>i\<leftarrow>[0..<4]. the (hdr (coeff_key (4 * order + i))) * real p ^ i) else 0)"
    by blast
  have "\<exists>w'. order_loop hdr w1 os = Inr w'
           \<and> nrows w' = nrows w1 \<and> ncols w' = ncols w1
           \<and> (\<forall>r p. cell w' r p =
                 cell w1 r p + (if r \<in> set os \<and> p < 4096
                   then (\<Sum>i\<leftarrow>[0..<4]. the (hdr (coeff_key (4 * r + i))) * real p ^ i) else 0))"
    using Cons.prems w1 by (intro Cons.IH) simp_all
  then obtain w' where w': "order_loop hdr w1 os = Inr w'"
    "nrows w' = nrows w1" "ncols w' = ncols w1"
    "\<And>r p. cell w' r p =
        cell w1 r p + (if r \<in> set os \<and> p < 4096
           then (\<Sum>i\<leftarrow>[0..<4]. the (hdr (coeff_key (4 * r + i))) * real p ^ i) else 0)"
    by blast
  have step: "order_loop hdr w (order # os) = Inr w'"
    using w1(1) w'(1) by simp
  have "cell w' r p = cell w r p + (if r \<in> set (order # os) \<and> p < 4096
           then (\<Sum>i\<leftarrow>[0..<4]. the (hdr (coeff_key (4 * r + i))) * real p ^ i) else 0)"
    for r p
    using Cons.prems(3) by (auto simp: w'(4) w1(4))
  with step w' w1 show ?case by simp
qed

lemma getWavelengthArray_cells:
  assumes "72 \<le> nrows (rawFluxArray self)" "4096 \<le> ncols (rawFluxArray self)"
    and "\<forall>k < 288. header self (coeff_key k) \<noteq> None"
  shows "\<exists>w. getWavelengthArray self = Inr \<lparr>ndview = A2 w, units = Angstrom\<rparr>
           \<and> nrows w = nrows (rawFluxArray self) \<and> ncols w = ncols (rawFluxArray self)
           \<and> (\<forall>order < 72. \<forall>pixel < 4096.
                 cell w order pixel =
                   (\<Sum>i = 0..<4. the (header self (coeff_key (4 * order + i))) * real pixel ^ i))"
proof -
  define z where "z = zeros (nrows (rawFluxArray self), ncols (rawFluxArray self))"
  have z: "nrows z = nrows (rawFluxArray self)" "ncols z = ncols (rawFluxArray self)"
    "\<And>r p. cell z r p = 0"
    by (simp_all add: z_def zeros_def)
  have keys: "\<forall>order \<in> set [0..<72]. \<forall>i < 4. header self (coeff_key (4 * order + i)) \<noteq> None"
    using assms(3) by auto
  have "\<exists>w'. order_loop (header self) z [0..<72] = Inr w'
           \<and> nrows w' = nrows z \<and> ncols w' = ncols z
           \<and> (\<forall>r p. cell w' r p =
                 cell z r p + (if r \<in> set [0..<72] \<and> p < 4096
                   then (\<Sum>i\<leftarrow>[0..<4]. the (header self (coeff_key (4 * r + i))) * real p ^ i) else 0))"
    using assms(1,2) z keys by (intro order_loop_spec) auto
  then obtain w where w: "order_loop (header self) z [0..<72] = Inr w"
    "nrows w = nrows z" "ncols w = ncols z"
    "\<And>r p. cell w r p =
        cell z r p + (if r \<in> set [0..<72] \<and> p < 4096
          then (\<Sum>i\<leftarrow>[0..<4]. the (header self (coeff_key (4 * r + i))) * real p ^ i) else 0)"
    by blast
  have res: "getWavelengthArray self = Inr \<lparr>ndview = A2 w, units = Angstrom\<rparr>"
    using w(1) by (simp add: getWavelengthArray_def Let_def z_def)
  have "cell w order pixel =
          (\<Sum>i = 0..<4. the (header self (coeff_key (4 * order + i))) * real pixel ^ i)"
    if "order < 72" "pixel < 4096" for order pixel
    using that by (simp add: w(4) z(3) interv_sum_list_conv_sum_set_nat)
  with res w z show ?thesis by (intro exI [of _ w]) simp
qed

subsection \<open>Names of the header cards\<close>

lemma decimal_value_snoc:
  "decimal_value (s @ [c]) = 10 * decimal_value s + (of_char c - 48)"
  by (simp add: decimal_value_def)

lemma digit_zero: "(of_char c :: nat) = 48 \<longleftrightarrow> c = CHR ''0''"
proof
  assume "(of_char c :: nat) = 48"
  then have "(of_char c :: nat) = of_char CHR ''0''" by simp
  then show "c = CHR ''0''" by (simp only: of_char_eq_iff)
next
  assume "c = CHR ''0''"
  then show "(of_char c :: nat) = 48" by simp
qed

lemma decimal_value_pos:
  assumes "s \<noteq> []" "\<forall>c \<in> set s. 48 \<le> (of_char c :: nat)" "hd s \<noteq> CHR ''0''"
  shows "0 < decimal_value s"
  using assms
proof (induction s rule: rev_induct)
  case Nil
  then show ?case by simp
next
  case (snoc c s)
  show ?case
  proof (cases "s = []")
    case True
    with snoc.prems have "c \<noteq> CHR ''0''" "48 \<le> (of_char c :: nat)" by simp_all
    then have "(of_char c :: nat) \<noteq> 48" by (simp add: digit_zero)
    with \<open>48 \<le> (of_char c :: nat)\<close> have "0 < (of_char c :: nat) - 48" by simp
    with True show ?thesis by (simp add: decimal_value_def)
  next
    case False
    with snoc.prems have "0 < decimal_value s" by (intro snoc.IH) simp_all
    then show ?thesis by (simp add: decimal_value_snoc)
  qed
qed

text \<open>The decimal numeral of a number is unique, and \<open>string_of_nat\<close> gives it.\<close>

lemma decimal_unique:
  assumes "is_decimal_of s n"
  shows "s = string_of_nat n"
  using assms
proof (induction s arbitrary: n rule: rev_induct)
  case Nil
  then show ?case by (simp add: is_decimal_of_def)
next
  case (snoc c s)
  from snoc.prems have dig: "\<forall>x \<in> set s. 48 \<le> (of_char x :: nat) \<and> (of_char x :: nat) \<le> 57"
    and c: "48 \<le> (of_char c :: nat)" "(of_char c :: nat) \<le> 57"
    and n: "n = 10 * decimal_value s + (of_char c - 48)"
    by (simp_all add: is_decimal_of_def decimal_value_snoc)
  have last_digit: "char_of (48 + ((of_char c :: nat) - 48)) = c"
    using c by simp
  show ?case
  proof (cases "s = []")
    case True
    then have nc: "n = of_char c - 48" using n by (simp add: decimal_value_def)
    with c have "n < 10" by simp
    then have "string_of_nat n = [char_of (48 + n)]"
      by (simp add: string_of_nat.simps [of n])
    also have "\<dots> = [c]" unfolding nc using last_digit by simp
    finally show ?thesis using True by simp
  next
    case False
    then have hd: "hd s \<noteq> CHR ''0''"
      using snoc.prems by (simp add: is_decimal_of_def)
    then have "is_decimal_of s (decimal_value s)"
      using False dig by (simp add: is_decimal_of_def)
    then have s: "s = string_of_nat (decimal_value s)" by (rule snoc.IH)
    have "0 < decimal_value s"
      using False dig hd by (intro decimal_value_pos) simp_all
    then have big: "\<not> n < 10" using n by simp
    define k where "k = (of_char c :: nat) - 48"
    have k: "k < 10" using c by (simp add: k_def)
    have nk: "n = 10 * decimal_value s + k" using n by (simp add: k_def)
    have "n div 10 = decimal_value s" "n mod 10 = of_char c - 48"
      unfolding nk using k by (simp_all add: k_def [symmetric])
    then have "string_of_nat n = string_of_nat (decimal_value s) @ [c]"
      using big last_digit by (simp add: string_of_nat.simps [of n])
    with s show ?thesis by simp
  qed
qed

lemma string_of_nat_decimal: "is_decimal_of (string_of_nat n) n"
proof (induction n rule: string_of_nat.induct)
  case (1 n)
  show ?case
  proof (cases "n < 10")
    case True
    then have "string_of_nat n = [char_of (48 + n)]"
      by (simp add: string_of_nat.simps [of n])
    moreover have "(of_char (char_of (48 + n) :: char) :: nat) = 48 + n"
      using True by simp
    ultimately show ?thesis
      using True by (simp add: is_decimal_of_def decimal_value_def)
  next
    case False
    define s where "s = string_of_nat (n div 10)"
    define c :: char where "c = char_of (48 + n mod 10)"
    have str: "string_of_nat n = s @ [c]"
      using False by (simp add: string_of_nat.simps [of n] s_def c_def)
    have IH: "is_decimal_of s (n div 10)"
      unfolding s_def using False by (rule "1.IH")
    have c: "(of_char c :: nat) = 48 + n mod 10"
      by (simp add: c_def)
    have pos: "0 < n div 10" using False by simp
    have ne: "s \<noteq> []" using IH by (simp add: is_decimal_of_def)
    have hd: "hd s \<noteq> CHR ''0''"
    proof
      assume z: "hd s = CHR ''0''"
      show False
      proof (cases "1 < length s")
        case True
        with IH z show False by (simp add: is_decimal_of_def)
      next
        case False
        with ne have "s = [hd s]" by (cases s) auto
        with z have "s = [CHR ''0'']" by simp
        with IH have "n div 10 = 0" by (simp add: is_decimal_of_def decimal_value_def)
        with pos show False by simp
      qed
    qed
    have "decimal_value (s @ [c]) = n"
      using IH c by (simp add: decimal_value_snoc is_decimal_of_def)
    moreover have "\<forall>x \<in> set (s @ [c]). 48 \<le> (of_char x :: nat) \<and> (of_char x :: nat) \<le> 57"
      using IH c by (auto simp: is_decimal_of_def)
    moreover have "hd (s @ [c]) \<noteq> CHR ''0''" using ne hd by simp
    ultimately show ?thesis
      unfolding str using ne hd by (simp add: is_decimal_of_def)
  qed
qed

lemma coeff_key_decimal:
  assumes "is_decimal_of d k"
  shows "''ESO DRS CAL TH COEFF LL'' @ d = coeff_key k"
  using decimal_unique [OF assms] by (simp add: coeff_key_def)

text \<open>
  C3. When the raw flux array has at least 72 rows and 4096 columns (HARPS: exactly 72 orders by
  4096 pixels) and the header holds the 288 cards \<^verbatim>\<open>ESO DRS CAL TH COEFF LLk\<close>, \<open>k\<close> written
  as a decimal numeral, \<^verbatim>\<open>getWavelengthArray\<close> returns an array in Angstroms of the shape of the
  raw flux array whose entry at \<open>[order, pixel]\<close> is the sum over \<open>i\<close> from 0 to 3 of the
  number on the card \<^verbatim>\<open>LLk\<close>, \<open>k = 4 * order + i\<close>, times \<open>pixel ^ i\<close>.
\<close>

theorem getWavelengthArray_polynomial:
  assumes "72 \<le> nrows (rawFluxArray self)" "4096 \<le> ncols (rawFluxArray self)"
    and "\<forall>k < 288. \<forall>d. is_decimal_of d k \<longrightarrow>
           header self (''ESO DRS CAL TH COEFF LL'' @ d) \<noteq> None"
  shows "\<exists>w. getWavelengthArray self = Inr \<lparr>ndview = A2 w, units = Angstrom\<rparr>
           \<and> nrows w = nrows (rawFluxArray self) \<and> ncols w = ncols (rawFluxArray self)
           \<and> (\<forall>order < 72. \<forall>pixel < 4096. \<forall>d.
                 (\<forall>i < 4. is_decimal_of (d i) (4 * order + i)) \<longrightarrow>
                 cell w order pixel =
                   (\<Sum>i = 0..<4. the (header self (''ESO DRS CAL TH COEFF LL'' @ d i))
                                    * real pixel ^ i))"
proof -
  have keys: "\<forall>k < 288. header self (coeff_key k) \<noteq> None"
  proof (intro allI impI)
    fix k :: nat assume "k < 288"
    with assms(3) string_of_nat_decimal [of k]
    have "header self (''ESO DRS CAL TH COEFF LL'' @ string_of_nat k) \<noteq> None" by blast
    then show "header self (coeff_key k) \<noteq> None" by (simp add: coeff_key_def)
  qed
  from getWavelengthArray_cells [OF assms(1,2) keys] obtain w where
    w: "getWavelengthArray self = Inr \<lparr>ndview = A2 w, units = Angstrom\<rparr>"
    "nrows w = nrows (rawFluxArray self)" "ncols w = ncols (rawFluxArray self)"
    "\<forall>order < 72. \<forall>pixel < 4096.
       cell w order pixel =
         (\<Sum>i = 0..<4. the (header self (coeff_key (4 * order + i))) * real pixel ^ i)"
    by blast
  have "cell w order pixel =
          (\<Sum>i = 0..<4. the (header self (''ESO DRS CAL TH COEFF LL'' @ d i)) * real pixel ^ i)"
    if "order < 72" "pixel < 4096" "\<forall>i < 4. is_decimal_of (d i) (4 * order + i)"
    for order pixel and d :: "nat \<Rightarrow> string"
  proof -
    have "''ESO DRS CAL TH COEFF LL'' @ d i = coeff_key (4 * order + i)" if "i \<in> {0..<4}" for i
      using that \<open>\<forall>i < 4. is_decimal_of (d i) (4 * order + i)\<close>
      by (intro coeff_key_decimal) simp
    then have "(\<Sum>i = 0..<4. the (header self (''ESO DRS CAL TH COEFF LL'' @ d i)) * real pixel ^ i)
             = (\<Sum>i = 0..<4. the (header self (coeff_key (4 * order + i))) * real pixel ^ i)"
      by (intro sum.cong) simp_all
    with w(4) that(1,2) show ?thesis by simp
  qed
  with w show ?thesis by (intro exI [of _ w]) blast
qed

lemma sample_header_card:
  "sample_header (''ESO DRS CAL TH COEFF LL'' @ d) = Some (real (decimal_value d))"
  by (simp add: sample_header_def)

theorem getWavelengthArray_polynomial_witness:
  "\<exists>w. getWavelengthArray sample_obs = Inr \<lparr>ndview = A2 w, units = Angstrom\<rparr>
       \<and> nrows w = 72 \<and> ncols w = 4096 \<and> cell w 71 2 = 4294"
proof -
  have a: "72 \<le> nrows (rawFluxArray sample_obs)" "4096 \<le> ncols (rawFluxArray sample_obs)"
    by (simp_all add: sample_obs_def zeros_def)
  have h: "header sample_obs = sample_header" by (simp add: sample_obs_def)
  have b: "\<forall>k < 288. \<forall>d. is_decimal_of d k \<longrightarrow>
             header sample_obs (''ESO DRS CAL TH COEFF LL'' @ d) \<noteq> None"
    unfolding h sample_header_card by simp
  define d :: "nat \<Rightarrow> string" where "d = (\<lambda>i. [''284'', ''285'', ''286'', ''287''] ! i)"
  from getWavelengthArray_polynomial [OF a b] obtain w where
    w: "getWavelengthArray sample_obs = Inr \<lparr>ndview = A2 w, units = Angstrom\<rparr>"
    "nrows w = nrows (rawFluxArray sample_obs)" "ncols w = ncols (rawFluxArray sample_obs)"
    "\<forall>order < 72. \<forall>pixel < 4096. \<forall>d.
       (\<forall>i < 4. is_decimal_of (d i) (4 * order + i)) \<longrightarrow>
       cell w order pixel =
         (\<Sum>i = 0..<4. the (header sample_obs (''ESO DRS CAL TH COEFF LL'' @ d i))
                          * real pixel ^ i)"
    by blast
  have dv: "decimal_value (d 0) = 284" "decimal_value (d (Suc 0)) = 285"
    "decimal_value (d (Suc (Suc 0))) = 286" "decimal_value (d (Suc (Suc (Suc 0)))) = 287"
    by (simp_all add: d_def decimal_value_def)
  have dec: "\<forall>i < 4. is_decimal_of (d i) (4 * 71 + i)"
  proof (intro allI impI)
    fix i :: nat assume "i < 4"
    then consider "i = 0" | "i = 1" | "i = 2" | "i = 3" by linarith
    then show "is_decimal_of (d i) (4 * 71 + i)"
      by cases (simp_all add: d_def is_decimal_of_def decimal_value_def)
  qed
  have "(71::nat) < 72" "(2::nat) < 4096" by simp_all
  with w(4) dec have "cell w 71 2 =
      (\<Sum>i = 0..<4. the (header sample_obs (''ESO DRS CAL TH COEFF LL'' @ d i))
                       * real (2::nat) ^ i)"
    by blast
  also have "\<dots> = (\<Sum>i = 0..<4. real (decimal_value (d i)) * (2::real) ^ i)"
    unfolding h sample_header_card by simp
  also have "\<dots> = 4294"
    by (simp add: eval_nat_numeral dv)
  finally have "cell w 71 2 = 4294" .
  with w show ?thesis
    by (intro exI [of _ w]) (simp add: sample_obs_def zeros_def)
qed

subsection \<open>\<^verbatim>\<open>findWavelength\<close>\<close>

lemma flat_index_less:
  fixes r c R C :: nat
  assumes "r < R" "c < C"
  shows "r * C + c < R * C"
proof -
  have "r * C + c < Suc r * C" using assms(2) by simp
  also have "\<dots> \<le> R * C" using assms(1) by (intro mult_le_mono1) simp
  finally show ?thesis .
qed

lemma concat_rows_nth:
  assumes "r < R" "c < C"
  shows "concat (map (\<lambda>r. map (f r) [0..<C]) [0..<R]) ! (r * C + c) = f r c"
  using assms(1)
proof (induction R)
  case 0
  then show ?case by simp
next
  case (Suc R)
  have len: "length (concat (map (\<lambda>r. map (f r) [0..<C]) [0..<R])) = R * C"
    by (simp add: length_concat comp_def sum_list_triv)
  show ?case
  proof (cases "r < R")
    case True
    then have "r * C + c < R * C" using assms(2) by (rule flat_index_less)
    with True Suc.IH len show ?thesis by (simp add: nth_append)
  next
    case False
    with Suc.prems have "r = R" by simp
    with len assms(2) show ?thesis by (simp add: nth_append)
  qed
qed

lemma flatten_nth:
  assumes "r < nrows g" "c < ncols g"
  shows "flatten g ! (r * ncols g + c) = cell g r c"
  unfolding flatten_def using assms by (rule concat_rows_nth)

lemma air2vacESO_grid_bounds:
  assumes "\<forall>r < nrows g. \<forall>c < ncols g. harps_range (cell g r c)"
  shows "\<exists>v. air2vacESO \<lparr>ndview = A2 g, units = Angstrom\<rparr> = Inr \<lparr>ndview = A2 v, units = Angstrom\<rparr>
           \<and> nrows v = nrows g \<and> ncols v = ncols g
           \<and> (\<forall>r < nrows g. \<forall>c < ncols g.
                 cell g r c \<le> cell v r c \<and> cell v r c \<le> cell g r c * (1 + 3 / 10 ^ 4))"
proof -
  define a where "a = \<lparr>ndview = A2 g, units = Angstrom\<rparr>"
  have id: "convert_length Angstrom Angstrom = (\<lambda>v. v)"
    by (rule ext) (rule convert_length_same)
  have av: "angstrom_values a = flatten g"
    by (simp add: angstrom_values_def a_def flat_values_def id)
  have rng: "\<forall>l \<in> set (angstrom_values a). harps_range l"
    unfolding av using assms by (auto simp: flatten_def)
  from harps_array_returns [OF rng] obtain res where res: "air2vacESO a = Inr res" by blast
  then obtain vs where
    all2: "list_all2 (\<lambda>x v. air2vac_element x = Inr v) (flatten g) vs" and
    r: "res = \<lparr>ndview = A2 (reshape vs (nrows g, ncols g)), units = Angstrom\<rparr>"
    unfolding air2vacESO_Inr av by (auto simp: a_def id)
  define v where "v = reshape vs (nrows g, ncols g)"
  have len: "length vs = nrows g * ncols g"
    using list_all2_lengthD [OF all2] by (simp add: length_flatten)
  have "cell g r c \<le> cell v r c \<and> cell v r c \<le> cell g r c * (1 + 3 / 10 ^ 4)"
    if rc: "r < nrows g" "c < ncols g" for r c
  proof -
    define i where "i = r * ncols g + c"
    have i: "i < length (flatten g)"
      unfolding i_def length_flatten using rc by (rule flat_index_less)
    have x: "flatten g ! i = cell g r c"
      unfolding i_def using rc by (rule flatten_nth)
    have "air2vac_element (flatten g ! i) = Inr (vs ! i)"
      using all2 i by (simp add: list_all2_conv_all_nth)
    then obtain m where "vs ! i = iterate (cell g r c) m"
      unfolding air2vac_element_Inr x by blast
    moreover have "harps_range (cell g r c)" using assms rc by simp
    ultimately have "cell g r c \<le> vs ! i \<and> vs ! i \<le> cell g r c * (1 + 3 / 10 ^ 4)"
      using iterate_in_range [of "cell g r c" m] by simp
    moreover have "cell v r c = vs ! i" by (simp add: v_def reshape_def i_def)
    ultimately show ?thesis by simp
  qed
  moreover have "nrows v = nrows g" "ncols v = ncols g" by (simp_all add: v_def reshape_def)
  ultimately show ?thesis using res r unfolding a_def v_def by blast
qed

lemma findWavelength_search_TypeError:
  assumes "item2 barycentric 0 0 = Inr array_min" "item2 barycentric 71 (- 1) = Inr array_max"
    and "array_min \<le> w" "w \<le> array_max"
    and "find_orders wl_array w [0..<72] [] = Inr found_in"
    and "length found_in \<noteq> 1" "length found_in < 3"
  shows "findWavelength_search barycentric wl_array w True = Inl TypeError"
  using assms by (simp add: findWavelength_search_def)

lemma find_orders_filter:
  assumes "\<forall>order \<in> set os. order < nrows g" "0 < ncols g"
  shows "find_orders \<lparr>ndview = A2 g, units = Angstrom\<rparr> w os acc =
           Inr (acc @ filter (\<lambda>order. cell g order 0 \<le> w \<and> w \<le> cell g order (ncols g - 1)) os)"
  using assms(1)
proof (induction os arbitrary: acc)
  case Nil
  show ?case by simp
next
  case (Cons order os)
  have a: "item2 \<lparr>ndview = A2 g, units = Angstrom\<rparr> (int order) 0 = Inr (cell g order 0)"
    using Cons.prems assms(2) by (simp add: item2_def convert_length_same)
  have "nat (int (ncols g) - 1) = ncols g - 1" by simp
  then have b: "item2 \<lparr>ndview = A2 g, units = Angstrom\<rparr> (int order) (- 1)
             = Inr (cell g order (ncols g - 1))"
    using Cons.prems assms(2) by (simp add: item2_def convert_length_same)
  have "\<forall>order \<in> set os. order < nrows g" using Cons.prems by simp
  note IH = Cons.IH [OF this]
  show ?case by (simp add: a b IH)
qed

lemma sample_orders_5039:
  "filter (\<lambda>order. cell sample_grid order 0 \<le> 5039 \<and> 5039 \<le> cell sample_grid order (ncols sample_grid - 1))
     [0..<72] = [39, 40]"
proof -
  have P: "(cell sample_grid order 0 \<le> 5039 \<and> 5039 \<le> cell sample_grid order (ncols sample_grid - 1))
             \<longleftrightarrow> (39 \<le> order \<and> order < 41)" for order
  proof -
    have "(3800 + 61 / 2 * real order \<le> 5039) \<longleftrightarrow> order < 41"
    proof
      assume "3800 + 61 / 2 * real order \<le> 5039"
      then have "real order < 41" by simp
      then show "order < 41" by simp
    next
      assume "order < 41"
      then have "real order \<le> 40" by simp
      then show "3800 + 61 / 2 * real order \<le> 5039" by simp
    qed
    moreover have "(5039 \<le> 3800 + 61 / 2 * real order + 4095 / 80) \<longleftrightarrow> 39 \<le> order"
    proof
      assume "5039 \<le> 3800 + 61 / 2 * real order + 4095 / 80"
      then have "38 < real order" by simp
      then show "39 \<le> order" by simp
    next
      assume "39 \<le> order"
      then have "39 \<le> real order" by simp
      then show "5039 \<le> 3800 + 61 / 2 * real order + 4095 / 80" by simp
    qed
    moreover have "cell sample_grid order 0 = 3800 + 61 / 2 * real order"
      by (simp add: sample_grid_def)
    moreover have "cell sample_grid order (ncols sample_grid - 1)
                     = 3800 + 61 / 2 * real order + 4095 / 80"
      by (simp add: sample_grid_def)
    ultimately show ?thesis by (simp only:) blast
  qed
  have "filter (\<lambda>order. 39 \<le> order \<and> order < 41) [0..<72] = [39..<41]"
    by (intro sorted_distinct_set_unique) (auto simp: sorted_wrt_filter)
  also have "[39..<41] = [39, 40::nat]"
    by (simp add: upt_rec)
  finally show ?thesis unfolding P .
qed

lemma sample_grid_in_range:
  "\<forall>r < nrows sample_grid. \<forall>c < ncols sample_grid. harps_range (cell sample_grid r c)"
proof (intro allI impI)
  fix r c assume "r < nrows sample_grid" "c < ncols sample_grid"
  then have "real r \<le> 71" "real c \<le> 4095" by (simp_all add: sample_grid_def)
  moreover have "0 \<le> real r" "0 \<le> real c" by simp_all
  ultimately have "3780 \<le> 3800 + 61 / 2 * real r + real c / 80
                 \<and> 3800 + 61 / 2 * real r + real c / 80 \<le> 6910"
    by simp
  then show "harps_range (cell sample_grid r c)"
    by (simp add: harps_range_def sample_grid_def)
qed

text \<open>
  C8 fails on the code. In the sample observation the wavelength 5039 Angstroms lies within the
  limits of the array and in the two neighbouring orders 39 and 40 (nearer to the central pixel
  in order 40). With \<^verbatim>\<open>closest_only=True\<close> the method raises \<^verbatim>\<open>TypeError\<close> instead of returning
  an order.
\<close>

theorem findWavelength_two_orders:
  "find_orders (wavelengthArray sample_obs) 5039 [0..<72] [] = Inr [39, 40]
   \<and> fst (findWavelength sample_obs 5039 True) = Inl TypeError"
proof -
  have wa: "wavelengthArray sample_obs = \<lparr>ndview = A2 sample_grid, units = Angstrom\<rparr>"
    by (simp add: sample_obs_def)
  have sh: "nrows sample_grid = 72" "ncols sample_grid = 4096"
    by (simp_all add: sample_grid_def)
  have fo: "find_orders (wavelengthArray sample_obs) 5039 [0..<72] [] = Inr [39, 40]"
    unfolding wa using find_orders_filter [of "[0..<72]" sample_grid 5039 "[]"] sample_orders_5039
    by (simp add: sh)
  from air2vacESO_grid_bounds [OF sample_grid_in_range] obtain v where
    res: "air2vacESO \<lparr>ndview = A2 sample_grid, units = Angstrom\<rparr>
            = Inr \<lparr>ndview = A2 v, units = Angstrom\<rparr>" and
    shv: "nrows v = 72" "ncols v = 4096" and
    bnd: "\<And>r c. r < 72 \<Longrightarrow> c < 4096 \<Longrightarrow>
            cell sample_grid r c \<le> cell v r c \<and> cell v r c \<le> cell sample_grid r c * (1 + 3 / 10 ^ 4)"
    unfolding sh by blast
  define f :: "real \<Rightarrow> real" where
    "f = (\<lambda>wl. convert_length Meter Angstrom
             ((10 * 1000 / speed_of_light) * convert_length Angstrom Meter wl
              + convert_length Angstrom Meter wl))"
  define bary where "bary = \<lparr>ndview = A2 (v\<lparr>cell := (\<lambda>r c. f (cell v r c))\<rparr>), units = Angstrom\<rparr>"
  define vac_m where
    "vac_m = \<lparr>ndview = A2 (v\<lparr>cell := (\<lambda>r c. convert_length Angstrom Meter (cell v r c))\<rparr>),
              units = Meter\<rparr>"
  have sw: "shiftWavelengthArray \<lparr>ndview = A2 v, units = Angstrom\<rparr> \<lparr>speed = 10, speed_unit = KmPerS\<rparr>
              = (Inr bary, vac_m, \<lparr>speed = 10000, speed_unit = MPerS\<rparr>)"
    by (simp add: shiftWavelengthArray_def shift_wavelength_def convert_array_def
        in_metres_per_second_def Let_def map_ndarray_def speed_of_light_def bary_def f_def
        vac_m_def)
  have vn: "vacuumArray sample_obs = None" and bv: "BERV sample_obs = \<lparr>speed = 10, speed_unit = KmPerS\<rparr>"
    by (simp_all add: sample_obs_def)
  have gv: "getVacuumArray sample_obs = Inr \<lparr>ndview = A2 v, units = Angstrom\<rparr>"
    using res by (simp add: getVacuumArray_def wa)
  have gb: "getBarycentricArray sample_obs =
              (Inr bary, sample_obs\<lparr>vacuumArray := Some vac_m,
                                     BERV := \<lparr>speed = 10000, speed_unit = MPerS\<rparr>\<rparr>)"
    by (simp add: getBarycentricArray_def vn gv bv sw)
  have fx: "f x = (10000 / speed_of_light) * x + x" for x
    by (simp add: f_def convert_length_def algebra_simps)
  have lo: "item2 bary 0 0 = Inr (f (cell v 0 0))"
    by (simp add: item2_def bary_def shv convert_length_same)
  have hi: "item2 bary 71 (- 1) = Inr (f (cell v 71 4095))"
    by (simp add: item2_def bary_def shv convert_length_same)
  have "cell v 0 0 \<le> cell sample_grid 0 0 * (1 + 3 / 10 ^ 4)"
    using bnd [of 0 0] by simp
  then have "cell v 0 0 \<le> 3802" by (simp add: sample_grid_def)
  then have lo_le: "f (cell v 0 0) \<le> 5039"
    unfolding fx by (simp add: speed_of_light_def)
  have "cell sample_grid 71 4095 \<le> cell v 71 4095"
    using bnd [of 71 4095] by simp
  then have "6016 \<le> cell v 71 4095" by (simp add: sample_grid_def)
  then have hi_ge: "5039 \<le> f (cell v 71 4095)"
    unfolding fx by (simp add: speed_of_light_def)
  have l1: "length [39, 40 :: nat] \<noteq> 1" and l2: "length [39, 40 :: nat] < 3"
    by simp_all
  have wa': "wavelengthArray (sample_obs\<lparr>vacuumArray := Some vac_m,
               BERV := \<lparr>speed = 10000, speed_unit = MPerS\<rparr>\<rparr>) = wavelengthArray sample_obs"
    by simp
  have "findWavelength_search bary (wavelengthArray sample_obs) 5039 True = Inl TypeError"
    by (rule findWavelength_search_TypeError [OF lo hi lo_le hi_ge fo l1 l2])
  moreover have "barycentricArray sample_obs = None"
    by (simp add: sample_obs_def)
  ultimately have "fst (findWavelength sample_obs 5039 True) = Inl TypeError"
    by (simp add: findWavelength_def gb)
  with fo show ?thesis by simp
qed

end
